theory Spec2Isabelle
  imports Main
begin

section \<open>The searchable-selection widget: Select, Typeahead, DynamicTypeahead\<close>

text \<open>
  A shallow embedding of \<^verbatim>\<open>web-components/select/select.js\<close> (class Select), of its
  subclass Typeahead and of \<^verbatim>\<open>dynamic-typeahead.js\<close> (class DynamicTypeahead).

  The widget is an object whose fields are mutated by event handlers. The embedding passes
  the object around as a record. The store entries are JavaScript objects that are shared
  between \<^verbatim>\<open>_store\<close>, \<^verbatim>\<open>#items\<close>, \<^verbatim>\<open>#item\<close>, \<^verbatim>\<open>#active\<close> and the
  \<^verbatim>\<open>next\<close>/\<^verbatim>\<open>prev\<close> links, and whose links are overwritten in place, so they live in
  an explicit heap and are named by their address.

  What is kept of the DOM is what the logic of the widget reads back or what the host can
  observe: the text of the input, whether the overlay is attached to the document, its
  placement, the resize listener, the content markup of the entries and the events
  emitted. CSS classes of the entries, ARIA attributes, the children of the list element,
  scroll offsets, the text selection and \<^verbatim>\<open>preventDefault\<close> are rendering and are left
  out. Strings are ASCII text: \<^verbatim>\<open>toLowerCase\<close> maps A-Z to a-z.
\<close>

subsection \<open>Values\<close>

text \<open>A reference-valued field holds \<^verbatim>\<open>null\<close>, \<^verbatim>\<open>undefined\<close> or an object.\<close>

datatype jsref = Null | Undefined | Obj nat

fun truthy :: "jsref \<Rightarrow> bool" where
  "truthy (Obj a) = True"
| "truthy Null = False"
| "truthy Undefined = False"

text \<open>
  A raw record of the host. The default label and node functions read its
  \<^verbatim>\<open>label\<close> and \<^verbatim>\<open>node\<close> properties, which may be absent; any further properties are
  the extension of the record. A content node is stood for by its inner markup.
\<close>

record js_record =
  label :: "string option"
  node :: "string option"

text \<open>
  \<^verbatim>\<open>{ data: i, node: li, content: content, next: null, prev: null }\<close>
  (\<^verbatim>\<open>next\<close> is a keyword of the proof language, hence the prefix.)
\<close>

record 'm store_node =
  data :: "'m js_record_scheme"
  content :: string
  item_next :: jsref
  item_prev :: jsref

datatype 'm event = SelectChange "'m js_record_scheme"

datatype widget_class = Select | Typeahead | DynamicTypeahead

text \<open>
  \<^verbatim>\<open>fn_node\<close> is either the closure installed by \<^verbatim>\<open>Select.initialize\<close>, which calls
  \<^verbatim>\<open>this.fn_label\<close> when it runs, or a function of the host.
\<close>

datatype 'm node_fn = DefaultNode | CustomNode "'m js_record_scheme \<Rightarrow> string"

text \<open>
  The outcome of running a handler: it returns, or a \<^verbatim>\<open>TypeError\<close> is raised (thrown, or
  the rejection of the promise of an \<^verbatim>\<open>async\<close> handler) in the state reached so far, or
  the handler is suspended at \<^verbatim>\<open>await this.store_fn(mask)\<close> until the host's fetch
  answers.
\<close>

datatype pending = InputPending string | ClickPending string

datatype 'a result = Return 'a | TypeError 'a | Await 'a pending

fun state_of :: "'a result \<Rightarrow> 'a" where
  "state_of (Return s) = s"
| "state_of (TypeError s) = s"
| "state_of (Await s p) = s"

fun and_then :: "'a result \<Rightarrow> ('a \<Rightarrow> 'a result) \<Rightarrow> 'a result" where
  "and_then (Return s) f = f s"
| "and_then (TypeError s) f = TypeError s"
| "and_then (Await s p) f = Await s p"

subsection \<open>The widget\<close>

record ('m, 'n) widget =
  kind :: widget_class
  fn_label :: "('m js_record_scheme \<Rightarrow> string) option"
  fn_node :: "'m node_fn option"
  heap :: "nat \<Rightarrow> 'm store_node"
  auto_id :: nat
  store :: "nat list option"
  items :: "nat list option"
  item :: jsref
  active :: jsref
  is_open :: bool
  cycle_when_closed :: bool
  min_characters :: "nat option"
  matches :: "nat option"
  handle_min_characters :: bool
  input_value :: string
  collapsed :: bool
  attached :: bool
  resize_listening :: bool
  placement :: "('n \<times> 'n \<times> 'n) option"
  rect_bottom :: 'n
  rect_left :: 'n
  rect_width :: 'n
  scroll_x :: 'n
  scroll_y :: 'n
  emitted :: "'m event list"

text \<open>
  \<^verbatim>\<open>store\<close> and \<^verbatim>\<open>items\<close> are \<open>None\<close> while the field is \<^verbatim>\<open>undefined\<close>;
  \<^verbatim>\<open>min_characters\<close> likewise (a comparison with \<^verbatim>\<open>undefined\<close> is false).
  \<^verbatim>\<open>auto_id\<close> is the counter of \<^verbatim>\<open>Core.next_id\<close>: every store entry gets a fresh
  identifier, which is its address in the heap. \<^verbatim>\<open>collapsed\<close>, \<^verbatim>\<open>attached\<close> and
  \<^verbatim>\<open>resize_listening\<close> are the CSS class of the host element, whether
  \<^verbatim>\<open>dropdown_container\<close> is a child of the document body, and whether
  \<^verbatim>\<open>resize_handler\<close> is a listener of the window. \<^verbatim>\<open>placement\<close> is the
  \<^verbatim>\<open>top\<close>, \<^verbatim>\<open>left\<close> and \<^verbatim>\<open>width\<close> of the container's style. The last geometry
  fields are what \<^verbatim>\<open>getBoundingClientRect\<close> of the input and the window's scroll
  offsets return; numbers are any type with an addition.
\<close>

subsection \<open>Strings\<close>

definition lower_char :: "char \<Rightarrow> char" where
  "lower_char c =
     (let n = (of_char c :: nat) in if 65 \<le> n \<and> n \<le> 90 then char_of (n + 32) else c)"

definition toLowerCase :: "string \<Rightarrow> string" where
  "toLowerCase s = map lower_char s"

fun starts_with :: "string \<Rightarrow> string \<Rightarrow> bool" where
  "starts_with s [] = True"
| "starts_with [] (c # cs) = False"
| "starts_with (d # ds) (c # cs) = (d = c \<and> starts_with ds cs)"

text \<open>
  \<^verbatim>\<open>s.includes(t)\<close>: \<open>t\<close> occurs in \<open>s\<close> at some position
  (\<^verbatim>\<open>includes\<close> is a keyword, hence the suffix).
\<close>

fun includes_str :: "string \<Rightarrow> string \<Rightarrow> bool" where
  "includes_str [] t = (t = [])"
| "includes_str (c # cs) t = (starts_with (c # cs) t \<or> includes_str cs t)"

text \<open>
  \<^verbatim>\<open>label.replace(new RegExp(`(${escapedMask})`, 'i'), '<b>$1</b>')\<close>: the first
  occurrence of the mask in the label, letters compared without case, is wrapped in a
  bold element; the empty mask matches at the start.
\<close>

fun highlight :: "string \<Rightarrow> string \<Rightarrow> string" where
  "highlight [] msk = (if msk = [] then ''<b></b>'' else [])"
| "highlight (c # cs) msk =
     (if starts_with (toLowerCase (c # cs)) (toLowerCase msk)
      then ''<b>'' @ take (length msk) (c # cs) @ ''</b>'' @ drop (length msk) (c # cs)
      else c # highlight cs msk)"

subsection \<open>Accessors and small methods of Select\<close>

definition set_item :: "jsref \<Rightarrow> ('m, 'n) widget \<Rightarrow> ('m, 'n) widget" where
  "set_item v s = s\<lparr>item := v\<rparr>"

definition set_active :: "jsref \<Rightarrow> ('m, 'n) widget \<Rightarrow> ('m, 'n) widget" where
  "set_active v s = s\<lparr>active := v\<rparr>"

text \<open>\<^verbatim>\<open>xs[i]\<close> of an array: \<^verbatim>\<open>undefined\<close> out of range.\<close>

definition at_index :: "nat list \<Rightarrow> nat \<Rightarrow> jsref" where
  "at_index xs i = (if i < length xs then Obj (xs ! i) else Undefined)"

text \<open>
  \<^verbatim>\<open>get label() { return this.item && this.fn_label(this.item.data) || ""; }\<close>
  \<open>None\<close> is the \<^verbatim>\<open>TypeError\<close> of calling a \<^verbatim>\<open>fn_label\<close> that is not a function.
\<close>

definition get_label :: "('m, 'n) widget \<Rightarrow> string option" where
  "get_label s =
     (case item s of
        Obj a \<Rightarrow> (case fn_label s of None \<Rightarrow> None | Some f \<Rightarrow> Some (f (data (heap s a))))
      | Null \<Rightarrow> Some []
      | Undefined \<Rightarrow> Some [])"

text \<open>\<^verbatim>\<open>this.elems.input.value = this.label\<close>\<close>

definition show_label :: "('m, 'n) widget \<Rightarrow> ('m, 'n) widget result" where
  "show_label s =
     (case get_label s of None \<Rightarrow> TypeError s | Some l \<Rightarrow> Return (s\<lparr>input_value := l\<rparr>))"

definition empty_list :: "('m, 'n) widget \<Rightarrow> ('m, 'n) widget" where
  "empty_list s = s\<lparr>items := Some []\<rparr>"

subsection \<open>Store entries\<close>

text \<open>
  \<^verbatim>\<open>this.fn_label = (item) => item.label || "";\<close>
\<close>

definition default_label :: "'m js_record_scheme \<Rightarrow> string" where
  "default_label r = (case label r of Some l \<Rightarrow> l | None \<Rightarrow> [])"

text \<open>
  \<^verbatim>\<open>this.fn_node(i)\<close>, the default being
  \<^verbatim>\<open>(item) => item.node || Dom.create("div", { innerHTML: this.fn_label(item) })\<close>.
  \<open>None\<close> is the \<^verbatim>\<open>TypeError\<close> of calling what is not a function.
\<close>

definition call_fn_node :: "('m, 'n) widget \<Rightarrow> 'm js_record_scheme \<Rightarrow> string option" where
  "call_fn_node s r =
     (case fn_node s of
        None \<Rightarrow> None
      | Some DefaultNode \<Rightarrow>
          (case node r of
             Some n \<Rightarrow> Some n
           | None \<Rightarrow> (case fn_label s of None \<Rightarrow> None | Some f \<Rightarrow> Some (f r)))
      | Some (CustomNode g) \<Rightarrow> Some (g r))"

text \<open>
  \<^verbatim>\<open>make_store_nodes(value)\<close>: one fresh entry per record, in order. The first component
  is \<open>None\<close> when the callback raised a \<^verbatim>\<open>TypeError\<close>; the identifiers drawn so far stay
  drawn.
\<close>

fun make_store_nodes ::
  "'m js_record_scheme list \<Rightarrow> ('m, 'n) widget \<Rightarrow> nat list option \<times> ('m, 'n) widget" where
  "make_store_nodes [] s = (Some [], s)"
| "make_store_nodes (r # rs) s =
     (let a = Suc (auto_id s); s1 = s\<lparr>auto_id := a\<rparr> in
      case call_fn_node s1 r of
        None \<Rightarrow> (None, s1)
      | Some c \<Rightarrow>
          (let fresh = \<lparr>data = r, content = c, item_next = Null, item_prev = Null\<rparr> in
           case make_store_nodes rs (s1\<lparr>heap := (heap s1)(a := fresh)\<rparr>) of
             (None, s2) \<Rightarrow> (None, s2)
           | (Some as, s2) \<Rightarrow> (Some (a # as), s2)))"

subsection \<open>refresh and fill\<close>

text \<open>
  \<^verbatim>\<open>Select.refresh(value)\<close>: the store filtered by the label. It mutates nothing;
  \<open>None\<close> is a \<^verbatim>\<open>TypeError\<close> (the store is \<^verbatim>\<open>undefined\<close>, or the store is not empty
  and \<^verbatim>\<open>fn_label\<close> is not a function).
\<close>

definition Select_refresh :: "string \<Rightarrow> ('m, 'n) widget \<Rightarrow> nat list option" where
  "Select_refresh v s =
     (case store s of
        None \<Rightarrow> None
      | Some st \<Rightarrow>
          (if st = [] then Some []
           else case fn_label s of
                  None \<Rightarrow> None
                | Some f \<Rightarrow>
                    Some (filter (\<lambda>a. includes_str (toLowerCase (f (data (heap s a))))
                                                    (toLowerCase v)) st)))"

text \<open>
  One round of the loop of \<^verbatim>\<open>fill\<close>:
  \<^verbatim>\<open>
      const curr = items[i];
      this.decorate_list_content(curr.data, curr.content, mask);
      curr.next = items[(i + 1) % items.length];
      curr.next.prev = curr;
  \<close>
\<close>

definition fill_step ::
  "nat list \<Rightarrow> string \<Rightarrow> ('m js_record_scheme \<Rightarrow> string) \<Rightarrow> nat \<Rightarrow>
   (nat \<Rightarrow> 'm store_node) \<Rightarrow> (nat \<Rightarrow> 'm store_node)" where
  "fill_step its msk f i h =
     (let curr = its ! i;
          h1 = h(curr := (h curr)\<lparr>content := highlight (f (data (h curr))) msk\<rparr>);
          nx = its ! ((i + 1) mod length its);
          h2 = h1(curr := (h1 curr)\<lparr>item_next := Obj nx\<rparr>)
      in h2(nx := (h2 nx)\<lparr>item_prev := Obj curr\<rparr>))"

text \<open>
  \<^verbatim>\<open>fill(items, mask)\<close>. The only operation of the loop that can fail is the call of
  \<^verbatim>\<open>fn_label\<close> in \<^verbatim>\<open>decorate_list_content\<close>, in the first round.
\<close>

definition fill :: "nat list \<Rightarrow> string \<Rightarrow> ('m, 'n) widget \<Rightarrow> ('m, 'n) widget result" where
  "fill its msk s =
     (let s1 = s\<lparr>items := Some its\<rparr> in
      if its = [] then Return s1
      else case fn_label s1 of
             None \<Rightarrow> TypeError s1
           | Some f \<Rightarrow>
               Return (s1\<lparr>heap := fold (fill_step its msk f) [0..<length its] (heap s1)\<rparr>))"

subsection \<open>The overlay\<close>

definition close_dropdown :: "('m, 'n) widget \<Rightarrow> ('m, 'n) widget" where
  "close_dropdown s = s\<lparr>collapsed := True, attached := False, resize_listening := False\<rparr>"

definition update_dropdown_position :: "('m, 'n::plus) widget \<Rightarrow> ('m, 'n) widget" where
  "update_dropdown_position s =
     (if is_open s
      then s\<lparr>placement :=
               Some (rect_bottom s + scroll_y s, rect_left s + scroll_x s, rect_width s)\<rparr>
      else s)"

definition open_dropdown :: "('m, 'n::plus) widget \<Rightarrow> ('m, 'n) widget" where
  "open_dropdown s =
     (update_dropdown_position (s\<lparr>collapsed := False, attached := True\<rparr>))
       \<lparr>resize_listening := True\<rparr>"

text \<open>
  The window is resized: the geometry changes, and the listener, when it is attached,
  runs \<^verbatim>\<open>this.resize_handler = () => this.close_dropdown();\<close>
\<close>

definition on_window_resize ::
  "'n \<Rightarrow> 'n \<Rightarrow> 'n \<Rightarrow> 'n \<Rightarrow> 'n \<Rightarrow> ('m, 'n) widget \<Rightarrow> ('m, 'n) widget" where
  "on_window_resize b l w x y s =
     (let s1 = s\<lparr>rect_bottom := b, rect_left := l, rect_width := w,
                  scroll_x := x, scroll_y := y\<rparr>
      in if resize_listening s1 then close_dropdown s1 else s1)"

subsection \<open>Selection\<close>

text \<open>
  \<^verbatim>\<open>select_index(i)\<close>:
  \<^verbatim>\<open>this.item = i == this.store.length ? null : this.store[i];\<close>
\<close>

definition select_index :: "nat \<Rightarrow> ('m, 'n) widget \<Rightarrow> ('m, 'n) widget result" where
  "select_index i s =
     (case store s of
        None \<Rightarrow> TypeError s
      | Some st \<Rightarrow> show_label (set_item (if i = length st then Null else at_index st i) s))"

definition reset :: "('m, 'n) widget \<Rightarrow> ('m, 'n) widget result" where
  "reset s = show_label (empty_list ((set_active Null s)\<lparr>is_open := False\<rparr>))"

definition on_input_blur_handler :: "('m, 'n) widget \<Rightarrow> ('m, 'n) widget result" where
  "on_input_blur_handler s = and_then (reset s) (\<lambda>s1. Return (close_dropdown s1))"

text \<open>
  \<^verbatim>\<open>
    const current = this.item;
    this.item = item;
    this.reset();
    this.close_dropdown();
    if (this.item !== current) {
      this.emit("select-change", { item: this.item.data });
    }
  \<close>
\<close>

definition on_li_click_handler :: "jsref \<Rightarrow> ('m, 'n) widget \<Rightarrow> ('m, 'n) widget result" where
  "on_li_click_handler it s =
     (let current = item s in
      and_then (reset (set_item it s))
        (\<lambda>s1. let s2 = close_dropdown s1 in
               if item s2 \<noteq> current
               then (case item s2 of
                       Obj a \<Rightarrow>
                         Return (s2\<lparr>emitted := emitted s2 @ [SelectChange (data (heap s2 a))]\<rparr>)
                     | Null \<Rightarrow> TypeError s2
                     | Undefined \<Rightarrow> TypeError s2)
               else Return s2))"

subsection \<open>The store setters\<close>

text \<open>
  Select: \<^verbatim>\<open>this._store = this.make_store_nodes(value); this.fill(this._store, '');
  this.select_index(0);\<close>
\<close>

definition Select_set_store ::
  "'m js_record_scheme list \<Rightarrow> ('m, 'n) widget \<Rightarrow> ('m, 'n) widget result" where
  "Select_set_store v s =
     (case make_store_nodes v s of
        (None, s1) \<Rightarrow> TypeError s1
      | (Some as, s1) \<Rightarrow> and_then (fill as [] (s1\<lparr>store := Some as\<rparr>)) (select_index 0))"

text \<open>Typeahead: \<^verbatim>\<open>set store(value) { this._store = this.make_store_nodes(value); }\<close>\<close>

definition Typeahead_set_store ::
  "'m js_record_scheme list \<Rightarrow> ('m, 'n) widget \<Rightarrow> ('m, 'n) widget result" where
  "Typeahead_set_store v s =
     (case make_store_nodes v s of
        (None, s1) \<Rightarrow> TypeError s1
      | (Some as, s1) \<Rightarrow> Return (s1\<lparr>store := Some as\<rparr>))"

definition set_store ::
  "'m js_record_scheme list \<Rightarrow> ('m, 'n) widget \<Rightarrow> ('m, 'n) widget result" where
  "set_store v s = (if kind s = Select then Select_set_store v s else Typeahead_set_store v s)"

subsection \<open>Opening by click\<close>

text \<open>
  \<^verbatim>\<open>Select.on_input_click_handler\<close>. \<^verbatim>\<open>refresh\<close> of Select returns an array, so the
  function resumes after \<^verbatim>\<open>await\<close> in a microtask, before any other event is
  handled: no other handler runs in between, and the handler is one step.
\<close>

definition Select_on_input_click_handler ::
  "('m, 'n::plus) widget \<Rightarrow> ('m, 'n) widget result" where
  "Select_on_input_click_handler s =
     (if is_open s then and_then (reset s) (\<lambda>s1. Return (close_dropdown s1))
      else
        (let s1 = open_dropdown (s\<lparr>is_open := True\<rparr>) in
         case Select_refresh [] s1 of
           None \<Rightarrow> TypeError s1
         | Some its \<Rightarrow>
             and_then (fill its [] s1)
               (\<lambda>s2. Return (if truthy (item s2) then set_active (item s2) s2 else s2))))"

text \<open>\<^verbatim>\<open>value.length < this.min_characters\<close>\<close>

definition below_min :: "('m, 'n) widget \<Rightarrow> string \<Rightarrow> bool" where
  "below_min s v = (case min_characters s of None \<Rightarrow> False | Some m \<Rightarrow> length v < m)"

text \<open>
  \<^verbatim>\<open>Typeahead.on_input_click_handler\<close>, from \<^verbatim>\<open>const items = await this.refresh(value)\<close>
  on:
  \<^verbatim>\<open>
      if (items.length == 0) this.elems.input.value = value;
      else {
        this.fill(items, value);
        this.open_dropdown();
        if (this.item) { this.active = this.item; this.scroll_to(this.item); }
      }
  \<close>
\<close>

definition click_resume ::
  "nat list \<Rightarrow> string \<Rightarrow> ('m, 'n::plus) widget \<Rightarrow> ('m, 'n) widget result" where
  "click_resume its v s =
     (if length its = 0 then Return (s\<lparr>input_value := v\<rparr>)
      else and_then (fill its v s)
             (\<lambda>s2. let s3 = open_dropdown s2 in
                    Return (if truthy (item s3) then set_active (item s3) s3 else s3)))"

text \<open>
  \<^verbatim>\<open>Typeahead.on_input_click_handler\<close> up to the call of \<^verbatim>\<open>refresh\<close>. In a
  Typeahead \<^verbatim>\<open>refresh\<close> is the one of Select and the handler goes on at once. In a
  DynamicTypeahead \<^verbatim>\<open>refresh\<close> is
  \<^verbatim>\<open>async refresh(mask) { this.store = await this.store_fn(mask); return this.store; }\<close>
  and the handler is suspended until the fetch answers.
\<close>

definition Typeahead_on_input_click_handler ::
  "('m, 'n::plus) widget \<Rightarrow> ('m, 'n) widget result" where
  "Typeahead_on_input_click_handler s =
     (if is_open s then and_then (reset s) (\<lambda>s1. Return (close_dropdown s1))
      else
        (let s1 = s\<lparr>is_open := True\<rparr> in
         if below_min s1 (input_value s1) \<and> \<not> handle_min_characters s1 then Return s1
         else
           (let v = (if truthy (item s1) then [] else input_value s1) in
            if kind s1 = DynamicTypeahead then Await s1 (ClickPending v)
            else case Select_refresh v s1 of
                   None \<Rightarrow> TypeError s1
                 | Some its \<Rightarrow> click_resume its v s1)))"

definition on_input_click_handler :: "('m, 'n::plus) widget \<Rightarrow> ('m, 'n) widget result" where
  "on_input_click_handler s =
     (if kind s = Select then Select_on_input_click_handler s
      else Typeahead_on_input_click_handler s)"

subsection \<open>Typing\<close>

text \<open>
  \<^verbatim>\<open>Typeahead.on_input_input_handler\<close>, from \<^verbatim>\<open>const items = await this.refresh(value)\<close>
  on:
  \<^verbatim>\<open>
    this.active = null;
    this.fill(items, value);
    if (this.items.length) { this.open_dropdown(); } else { this.close_dropdown(); }
  \<close>
\<close>

definition input_resume ::
  "nat list \<Rightarrow> string \<Rightarrow> ('m, 'n::plus) widget \<Rightarrow> ('m, 'n) widget result" where
  "input_resume its v s =
     and_then (fill its v (set_active Null s))
       (\<lambda>s2. case items s2 of
                None \<Rightarrow> TypeError s2
              | Some xs \<Rightarrow> Return (if length xs \<noteq> 0 then open_dropdown s2 else close_dropdown s2))"

text \<open>
  The handler runs, debounced, after the user has typed; \<^verbatim>\<open>ev.target.value\<close> is the text
  of the input.
  \<^verbatim>\<open>
    var value = ev.target.value;
    if (value.length < this.min_characters) {
      if (!this.handle_min_characters) return;
      value = "";
    }
    this.empty();
    const items = await this.refresh(value);
  \<close>
\<close>

definition on_input_input_handler :: "('m, 'n::plus) widget \<Rightarrow> ('m, 'n) widget result" where
  "on_input_input_handler s =
     (let v = input_value s in
      if below_min s v \<and> \<not> handle_min_characters s then Return s
      else
        (let v1 = (if below_min s v then [] else v);
             s1 = empty_list s
         in if kind s1 = DynamicTypeahead then Await s1 (InputPending v1)
            else case Select_refresh v1 s1 of
                   None \<Rightarrow> TypeError s1
                 | Some its \<Rightarrow> input_resume its v1 s1))"

text \<open>The user types: the browser changes the text of the input.\<close>

definition type_text :: "string \<Rightarrow> ('m, 'n) widget \<Rightarrow> ('m, 'n) widget" where
  "type_text v s = s\<lparr>input_value := v\<rparr>"

text \<open>
  The fetch of a DynamicTypeahead answers with the records \<open>rs\<close>: \<^verbatim>\<open>refresh\<close> stores them
  through the setter of Typeahead and returns the new store, and the suspended handler
  goes on with it.
\<close>

definition resume ::
  "pending \<Rightarrow> 'm js_record_scheme list \<Rightarrow> ('m, 'n::plus) widget \<Rightarrow> ('m, 'n) widget result" where
  "resume p rs s =
     and_then (Typeahead_set_store rs s)
       (\<lambda>s1. case store s1 of
                None \<Rightarrow> TypeError s1
              | Some st \<Rightarrow>
                  (case p of
                     InputPending v \<Rightarrow> input_resume st v s1
                   | ClickPending v \<Rightarrow> click_resume st v s1))"

subsection \<open>The keyboard\<close>

text \<open>
  \<^verbatim>\<open>on_input_key_down_handler(ev)\<close>, with \<^verbatim>\<open>ev.keyCode\<close> and \<^verbatim>\<open>ev.shiftKey\<close>:
  40 is ArrowDown, 38 ArrowUp, 13 Enter, 27 Escape.
\<close>

definition step_link :: "nat \<Rightarrow> ('m, 'n) widget \<Rightarrow> nat \<Rightarrow> jsref" where
  "step_link keyCode s a =
     (if keyCode = 40 then item_next (heap s a) else item_prev (heap s a))"

text \<open>
  \<^verbatim>\<open>(ev.keyCode == 40) ? this.items[0] : this.items[this.items.length - 1]\<close>;
  index \<open>-1\<close> of the empty array is \<^verbatim>\<open>undefined\<close>.
\<close>

definition first_or_last :: "nat \<Rightarrow> nat list \<Rightarrow> jsref" where
  "first_or_last keyCode its =
     (if keyCode = 40 then at_index its 0
      else if length its = 0 then Undefined
      else at_index its (length its - 1))"

definition on_input_key_down_handler ::
  "nat \<Rightarrow> bool \<Rightarrow> ('m, 'n::plus) widget \<Rightarrow> ('m, 'n) widget result" where
  "on_input_key_down_handler keyCode shiftKey s =
     (if shiftKey \<and> keyCode = 38 then Return s
      else if keyCode = 40 \<or> keyCode = 38 then
        (if \<not> is_open s \<and> cycle_when_closed s then
           (case store s of
              None \<Rightarrow> TypeError s
            | Some st \<Rightarrow>
                on_li_click_handler
                  (case item s of
                     Obj a \<Rightarrow> step_link keyCode s a
                   | Null \<Rightarrow> at_index st 0
                   | Undefined \<Rightarrow> at_index st 0) s)
         else
           (case items s of
              None \<Rightarrow> TypeError s
            | Some its \<Rightarrow>
                if length its = 0 \<and> \<not> cycle_when_closed s then Return s
                else
                  (let s1 =
                     set_active
                       (case active s of
                          Obj a \<Rightarrow> step_link keyCode s a
                        | Null \<Rightarrow> first_or_last keyCode its
                        | Undefined \<Rightarrow> first_or_last keyCode its) s
                   in case active s1 of
                        Obj a \<Rightarrow>
                          (case fn_label s1 of
                             None \<Rightarrow> TypeError s1
                           | Some f \<Rightarrow> Return (s1\<lparr>input_value := f (data (heap s1 a))\<rparr>))
                      | Null \<Rightarrow> TypeError s1
                      | Undefined \<Rightarrow> TypeError s1)))
      else if keyCode = 13 then
        (if \<not> is_open s then on_input_click_handler s
         else if truthy (active s) then on_li_click_handler (active s) s
         else (case items s of
                 None \<Rightarrow> TypeError s
               | Some its \<Rightarrow>
                   if length its > 0 then on_li_click_handler (at_index its 0) s
                   else Return s))
      else if keyCode = 27 then on_input_blur_handler s
      else Return s)"

subsection \<open>initialize\<close>

text \<open>
  \<^verbatim>\<open>Select.initialize\<close> takes no argument and checks nothing. It creates a new overlay
  container, which is not in the document yet and has no style, and a new resize handler.
\<close>

definition Select_initialize :: "('m, 'n) widget \<Rightarrow> ('m, 'n) widget" where
  "Select_initialize s =
     (set_active Null (set_item Null s))
       \<lparr>is_open := False, fn_label := Some default_label, fn_node := Some DefaultNode,
        cycle_when_closed := True, attached := False, resize_listening := False,
        placement := None\<rparr>"

text \<open>
  \<^verbatim>\<open>this.matches = 2\<close> creates a property of its own: the accessor of the private field
  is \<^verbatim>\<open>min_characters\<close>, which stays \<^verbatim>\<open>undefined\<close> in a Typeahead.
\<close>

definition Typeahead_initialize :: "('m, 'n) widget \<Rightarrow> ('m, 'n) widget" where
  "Typeahead_initialize s =
     (Select_initialize s)\<lparr>items := Some [], matches := Some 2, handle_min_characters := True\<rparr>"

definition DynamicTypeahead_initialize :: "('m, 'n) widget \<Rightarrow> ('m, 'n) widget" where
  "DynamicTypeahead_initialize s =
     (Typeahead_initialize s)
       \<lparr>min_characters := Some 3, handle_min_characters := False, cycle_when_closed := False\<rparr>"

definition initialize :: "('m, 'n) widget \<Rightarrow> ('m, 'n) widget result" where
  "initialize s =
     Return (case kind s of
               Select \<Rightarrow> Select_initialize s
             | Typeahead \<Rightarrow> Typeahead_initialize s
             | DynamicTypeahead \<Rightarrow> DynamicTypeahead_initialize s)"

text \<open>
  The element as the constructor leaves it, before \<^verbatim>\<open>connectedCallback\<close> calls
  \<^verbatim>\<open>initialize\<close>: every field of the class is \<^verbatim>\<open>undefined\<close>.
\<close>

definition constructed ::
  "widget_class \<Rightarrow> (nat \<Rightarrow> 'm store_node) \<Rightarrow> 'n \<Rightarrow> 'n \<Rightarrow> 'n \<Rightarrow> 'n \<Rightarrow> 'n \<Rightarrow> ('m, 'n) widget" where
  "constructed k h b l w x y =
     \<lparr>kind = k, fn_label = None, fn_node = None, heap = h, auto_id = 0, store = None,
      items = None, item = Undefined, active = Undefined, is_open = False,
      cycle_when_closed = False, min_characters = None, matches = None,
      handle_min_characters = False, input_value = [], collapsed = False, attached = False,
      resize_listening = False, placement = None, rect_bottom = b, rect_left = l,
      rect_width = w, scroll_x = x, scroll_y = y, emitted = []\<rparr>"

text \<open>The setters of the two functions accept any value.\<close>

definition set_fn_label ::
  "('m js_record_scheme \<Rightarrow> string) option \<Rightarrow> ('m, 'n) widget \<Rightarrow> ('m, 'n) widget" where
  "set_fn_label v s = s\<lparr>fn_label := v\<rparr>"

definition set_fn_node :: "'m node_fn option \<Rightarrow> ('m, 'n) widget \<Rightarrow> ('m, 'n) widget" where
  "set_fn_node v s = s\<lparr>fn_node := v\<rparr>"

section \<open>Notions of the specification\<close>

text \<open>A handler failed: it raised a \<^verbatim>\<open>TypeError\<close>.\<close>

fun failed :: "'a result \<Rightarrow> bool" where
  "failed (TypeError s) = True"
| "failed (Return s) = False"
| "failed (Await s p) = False"

text \<open>
  The label contains the query text, case-insensitively: the lower-cased query occurs
  somewhere in the lower-cased label.
\<close>

definition contains_ci :: "string \<Rightarrow> string \<Rightarrow> bool" where
  "contains_ci lbl q = (\<exists>ps ss. toLowerCase lbl = ps @ toLowerCase q @ ss)"

text \<open>The records of the visible set, in display order.\<close>

definition visible_records :: "('m, 'n) widget \<Rightarrow> 'm js_record_scheme list" where
  "visible_records s =
     (case items s of None \<Rightarrow> [] | Some its \<Rightarrow> map (\<lambda>a. data (heap s a)) its)"

text \<open>Following the \<^verbatim>\<open>next\<close> link \<open>k\<close> times from a reference.\<close>

fun follow_next :: "(nat \<Rightarrow> 'm store_node) \<Rightarrow> nat \<Rightarrow> jsref \<Rightarrow> jsref" where
  "follow_next h 0 r = r"
| "follow_next h (Suc k) r =
     (case r of
        Obj a \<Rightarrow> follow_next h k (item_next (h a))
      | Null \<Rightarrow> Null
      | Undefined \<Rightarrow> Undefined)"

text \<open>Pressing a key \<open>k\<close> times, without the shift key.\<close>

fun press :: "nat \<Rightarrow> nat \<Rightarrow> ('m, 'n::plus) widget \<Rightarrow> ('m, 'n) widget result" where
  "press keyCode 0 s = Return s"
| "press keyCode (Suc k) s =
     and_then (on_input_key_down_handler keyCode False s) (press keyCode k)"

text \<open>
  A query is issued: the user has typed \<open>q\<close> and the debounced handler runs. Two queries
  are issued to the fetch of a DynamicTypeahead before any answer; then either the answer
  to the second query arrives alone, or it arrives first and the answer to the first
  query after it.
\<close>

definition issue :: "string \<Rightarrow> ('m, 'n::plus) widget \<Rightarrow> ('m, 'n) widget result" where
  "issue q s = on_input_input_handler (type_text q s)"

definition answered_newest_only ::
  "string \<Rightarrow> string \<Rightarrow> 'm js_record_scheme list \<Rightarrow> ('m, 'n::plus) widget \<Rightarrow> ('m, 'n) widget result" where
  "answered_newest_only q1 q2 rs2 s =
     (case issue q1 s of
        Await s1 p1 \<Rightarrow>
          (case issue q2 s1 of
             Await s2 p2 \<Rightarrow> resume p2 rs2 s2
           | Return s2 \<Rightarrow> Return s2
           | TypeError s2 \<Rightarrow> TypeError s2)
      | Return s1 \<Rightarrow> Return s1
      | TypeError s1 \<Rightarrow> TypeError s1)"

definition answered_out_of_order ::
  "string \<Rightarrow> string \<Rightarrow> 'm js_record_scheme list \<Rightarrow> 'm js_record_scheme list \<Rightarrow>
   ('m, 'n::plus) widget \<Rightarrow> ('m, 'n) widget result" where
  "answered_out_of_order q1 q2 rs1 rs2 s =
     (case issue q1 s of
        Await s1 p1 \<Rightarrow>
          (case issue q2 s1 of
             Await s2 p2 \<Rightarrow> and_then (resume p2 rs2 s2) (resume p1 rs1)
           | Return s2 \<Rightarrow> Return s2
           | TypeError s2 \<Rightarrow> TypeError s2)
      | Return s1 \<Rightarrow> Return s1
      | TypeError s1 \<Rightarrow> TypeError s1)"



text \<open>
  The dropdown of the widget \<open>s\<close> has been opened on the entries \<open>its\<close>, and \<open>s'\<close> is
  the widget after it: \<^verbatim>\<open>is_open\<close> is set, the overlay is attached, shown and placed
  under the input, the resize listener is attached, the visible set is \<open>its\<close> with the
  records these entries had, the selected entry, if there is one, is active, and nothing
  has been committed.
\<close>

definition opened_with :: "nat list \<Rightarrow> ('m, 'n::plus) widget \<Rightarrow> ('m, 'n) widget \<Rightarrow> bool" where
  "opened_with its s s' \<longleftrightarrow>
     is_open s' \<and> attached s' \<and> \<not> collapsed s' \<and> resize_listening s'
     \<and> placement s' = Some (rect_bottom s + scroll_y s, rect_left s + scroll_x s, rect_width s)
     \<and> items s' = Some its
     \<and> visible_records s' = map (\<lambda>a. data (heap s a)) its
     \<and> active s' = (if truthy (item s) then item s else active s)
     \<and> item s' = item s \<and> emitted s' = emitted s \<and> store s' = store s
     \<and> input_value s' = input_value s"

text \<open>
  The configuration of a widget, which no handler changes.
\<close>

definition same_config :: "('m, 'n) widget \<Rightarrow> ('m, 'n) widget \<Rightarrow> bool" where
  "same_config s' s \<longleftrightarrow>
     kind s' = kind s \<and> fn_label s' = fn_label s \<and> fn_node s' = fn_node s
     \<and> min_characters s' = min_characters s
     \<and> handle_min_characters s' = handle_min_characters s
     \<and> cycle_when_closed s' = cycle_when_closed s"

subsection \<open>Concrete widgets\<close>

text \<open>
  A widget of each class as \<^verbatim>\<open>connectedCallback\<close> leaves it, with an input at the origin
  of an unscrolled window, and records that have a label only.
\<close>

definition blank_node :: "unit store_node" where
  "blank_node = \<lparr>data = \<lparr>label = None, node = None\<rparr>, content = [], item_next = Null, item_prev = Null\<rparr>"

definition demo :: "widget_class \<Rightarrow> (unit, int) widget" where
  "demo k = state_of (initialize (constructed k (\<lambda>a. blank_node) 0 0 0 0 0))"

definition labelled :: "string \<Rightarrow> js_record" where
  "labelled l = \<lparr>label = Some l, node = None\<rparr>"

text \<open>
  A Select with two entries and no selection (\<^verbatim>\<open>select_index\<close> at the length of the
  store), opened by a click.
\<close>

definition two_entries_open :: "(unit, int) widget result" where
  "two_entries_open =
     and_then
       (and_then (set_store [labelled ''A'', labelled ''B''] (demo Select)) (select_index 2))
       on_input_click_handler"

text \<open>
  The same Select opened with its first entry selected, as the setter of the store
  leaves it.
\<close>

definition two_entries_selected_open :: "(unit, int) widget result" where
  "two_entries_selected_open =
     and_then (set_store [labelled ''A'', labelled ''B''] (demo Select)) on_input_click_handler"

text \<open>A Select whose store is the empty array, opened by a click.\<close>

definition empty_select_open :: "(unit, int) widget result" where
  "empty_select_open = and_then (set_store [] (demo Select)) on_input_click_handler"

text \<open>
  A DynamicTypeahead in which the user has typed three characters and the fetch has
  answered with one record.
\<close>

definition typed_and_answered :: "(unit, int) widget result" where
  "typed_and_answered =
     (case issue ''abc'' (demo DynamicTypeahead) of
        Await s1 p \<Rightarrow> resume p [labelled ''abcd''] s1
      | Return s1 \<Rightarrow> Return s1
      | TypeError s1 \<Rightarrow> TypeError s1)"

text \<open>
  A Select with two entries whose input has its bottom edge at 30, its left edge at 10 and
  the width 200, in a window scrolled by 3 horizontally and 40 vertically.
\<close>

definition placed_select :: "(unit, int) widget" where
  "placed_select =
     state_of (and_then (initialize (constructed Select (\<lambda>a. blank_node) 30 10 200 3 40))
                 (set_store [labelled ''A'', labelled ''B'']))"




section \<open>Auxiliary facts\<close>

lemmas widget_defs =
  demo_def labelled_def blank_node_def initialize_def constructed_def Select_initialize_def
  Typeahead_initialize_def DynamicTypeahead_initialize_def set_active_def set_item_def
  set_store_def Select_set_store_def Typeahead_set_store_def call_fn_node_def default_label_def
  fill_def fill_step_def select_index_def show_label_def get_label_def at_index_def
  on_input_click_handler_def Select_on_input_click_handler_def
  Typeahead_on_input_click_handler_def click_resume_def input_resume_def
  on_input_input_handler_def below_min_def open_dropdown_def
  update_dropdown_position_def close_dropdown_def Select_refresh_def
  on_input_key_down_handler_def first_or_last_def step_link_def reset_def empty_list_def
  on_li_click_handler_def on_input_blur_handler_def toLowerCase_def

subsection \<open>Substrings\<close>

lemma starts_with_iff: "starts_with s t \<longleftrightarrow> (\<exists>ss. s = t @ ss)"
  by (induction s t rule: starts_with.induct) auto

lemma includes_str_iff: "includes_str s t \<longleftrightarrow> (\<exists>ps ss. s = ps @ t @ ss)"
proof (induction s)
  case Nil
  then show ?case by auto
next
  case (Cons c cs)
  show ?case
  proof
    assume "includes_str (c # cs) t"
    then consider "starts_with (c # cs) t" | "includes_str cs t" by auto
    then show "\<exists>ps ss. c # cs = ps @ t @ ss"
    proof cases
      case 1
      then obtain ss where "c # cs = t @ ss" by (auto simp: starts_with_iff)
      then have "c # cs = [] @ t @ ss" by simp
      then show ?thesis by blast
    next
      case 2
      then obtain ps ss where "cs = ps @ t @ ss" using Cons.IH by auto
      then have "c # cs = (c # ps) @ t @ ss" by simp
      then show ?thesis by blast
    qed
  next
    assume "\<exists>ps ss. c # cs = ps @ t @ ss"
    then obtain ps ss where e: "c # cs = ps @ t @ ss" by auto
    show "includes_str (c # cs) t"
    proof (cases ps)
      case Nil
      with e have "starts_with (c # cs) t" by (auto simp: starts_with_iff)
      then show ?thesis by simp
    next
      case (Cons p ps')
      with e have "cs = ps' @ t @ ss" by simp
      then have "includes_str cs t" using Cons.IH by blast
      then show ?thesis by simp
    qed
  qed
qed

lemma includes_str_empty: "includes_str s []"
  by (cases s) auto

subsection \<open>The loop of fill\<close>

lemma fill_step_data: "data (fill_step its msk f i h a) = data (h a)"
  by (simp add: fill_step_def Let_def)

lemma fill_step_next:
  "item_next (fill_step its msk f i h a) =
     (if a = its ! i then Obj (its ! ((i + 1) mod length its)) else item_next (h a))"
  by (simp add: fill_step_def Let_def)

lemma fill_step_prev:
  "item_prev (fill_step its msk f i h a) =
     (if a = its ! ((i + 1) mod length its) then Obj (its ! i) else item_prev (h a))"
  by (simp add: fill_step_def Let_def)

lemma fill_loop_data: "data (fold (fill_step its msk f) [0..<k] h a) = data (h a)"
  by (induction k) (simp_all add: fill_step_data)

lemma fill_loop_links:
  assumes "distinct its" and "k \<le> length its"
  shows "\<forall>i<k. item_next (fold (fill_step its msk f) [0..<k] h (its ! i))
                  = Obj (its ! ((i + 1) mod length its))
              \<and> item_prev (fold (fill_step its msk f) [0..<k] h (its ! ((i + 1) mod length its)))
                  = Obj (its ! i)"
  using assms(2)
proof (induction k)
  case 0
  then show ?case by simp
next
  case (Suc k)
  let ?n = "length its"
  let ?h = "fold (fill_step its msk f) [0..<k] h"
  have k: "k < ?n" using Suc.prems by simp
  have IH: "\<forall>i<k. item_next (?h (its ! i)) = Obj (its ! ((i + 1) mod ?n))
              \<and> item_prev (?h (its ! ((i + 1) mod ?n))) = Obj (its ! i)"
    using Suc by simp
  have unfold: "fold (fill_step its msk f) [0..<Suc k] h = fill_step its msk f k ?h"
    by simp
  show ?case
  proof (intro allI impI)
    fix i assume "i < Suc k"
    then consider "i = k" | "i < k" by linarith
    then show "item_next (fold (fill_step its msk f) [0..<Suc k] h (its ! i))
                  = Obj (its ! ((i + 1) mod ?n))
              \<and> item_prev (fold (fill_step its msk f) [0..<Suc k] h (its ! ((i + 1) mod ?n)))
                  = Obj (its ! i)"
    proof cases
      case 1
      then show ?thesis unfolding unfold by (simp add: fill_step_next fill_step_prev)
    next
      case 2
      then have ne: "its ! i \<noteq> its ! k"
        using k assms(1) by (simp add: nth_eq_iff_index_eq)
      have i1: "(i + 1) mod ?n = i + 1" using 2 k by simp
      have "(k + 1) mod ?n \<noteq> i + 1"
      proof (cases "k + 1 < ?n")
        case True
        then show ?thesis using 2 by simp
      next
        case False
        then have "k + 1 = ?n" using k by simp
        then show ?thesis by simp
      qed
      moreover have "0 < ?n" using k by (cases its) auto
      then have "(k + 1) mod ?n < ?n" by (rule mod_less_divisor)
      ultimately have ne2: "its ! ((k + 1) mod ?n) \<noteq> its ! (i + 1)"
        using assms(1) 2 k by (simp add: nth_eq_iff_index_eq)
      have a: "item_next (?h (its ! i)) = Obj (its ! (i + 1))"
        and b: "item_prev (?h (its ! (i + 1))) = Obj (its ! i)"
        using IH 2 i1 by auto
      show ?thesis unfolding unfold i1 using a b ne ne2
        by (simp add: fill_step_next fill_step_prev)
    qed
  qed
qed

lemma fill_ok:
  assumes "fn_label s = Some f"
  shows "\<exists>h'. fill its msk s = Return (s\<lparr>items := Some its, heap := h'\<rparr>)
             \<and> (\<forall>a. data (h' a) = data (heap s a))"
proof (cases "its = []")
  case True
  then show ?thesis by (intro exI [of _ "heap s"]) (simp add: fill_def)
next
  case False
  then have "fill its msk s = Return (s\<lparr>items := Some its,
      heap := fold (fill_step its msk f) [0..<length its] (heap s)\<rparr>)"
    using assms by (simp add: fill_def)
  then show ?thesis using fill_loop_data by blast
qed

subsection \<open>The ring and the arrow keys\<close>

lemma follow_ring:
  assumes "\<forall>i<length its. item_next (h (its ! i)) = Obj (its ! ((i + 1) mod length its))"
    and "i < length its"
  shows "follow_next h k (Obj (its ! i)) = Obj (its ! ((i + k) mod length its))"
  using assms(2)
proof (induction k arbitrary: i)
  case 0
  then show ?case by simp
next
  case (Suc k)
  let ?n = "length its"
  have n: "0 < ?n" using Suc.prems by (cases its) auto
  then have lt: "(i + 1) mod ?n < ?n" by (rule mod_less_divisor)
  have "follow_next h (Suc k) (Obj (its ! i)) = follow_next h k (Obj (its ! ((i + 1) mod ?n)))"
    using assms(1) Suc.prems by simp
  also have "\<dots> = Obj (its ! (((i + 1) mod ?n + k) mod ?n))"
    using Suc.IH [OF lt] .
  also have "((i + 1) mod ?n + k) mod ?n = (i + Suc k) mod ?n"
    by (simp add: mod_add_left_eq)
  finally show ?case .
qed

lemma shifted_index:
  fixes i k n :: nat
  assumes "i < n" and "0 < k" and "k < n"
  shows "(i + k) mod n \<noteq> i"
proof (cases "i + k < n")
  case True
  then show ?thesis using assms by simp
next
  case False
  then have "(i + k) mod n = (i + k - n) mod n" by (simp add: le_mod_geq)
  also have "\<dots> = i + k - n" using assms by simp
  finally show ?thesis using assms False by simp
qed

lemma ring_no_shortcut:
  assumes "distinct its" and "i < length its" and "0 < k" and "k < length its"
  shows "its ! ((i + k) mod length its) \<noteq> its ! i"
proof -
  have "0 < length its" using assms(2) by (cases its) auto
  then have "(i + k) mod length its < length its" by (rule mod_less_divisor)
  then show ?thesis
    using assms shifted_index [OF assms(2,3,4)] by (simp add: nth_eq_iff_index_eq)
qed

lemma key_down_first:
  assumes "is_open s" and "items s = Some its" and "its \<noteq> []" and "fn_label s = Some f"
    and "\<not> truthy (active s)"
  shows "on_input_key_down_handler 40 sh s =
           Return (s\<lparr>active := Obj (its ! 0), input_value := f (data (heap s (its ! 0)))\<rparr>)"
  using assms
  by (cases "active s")
     (simp_all add: on_input_key_down_handler_def first_or_last_def at_index_def set_active_def)

lemma key_down_next:
  assumes "is_open s" and "items s = Some its" and "its \<noteq> []" and "fn_label s = Some f"
    and "active s = Obj a" and "item_next (heap s a) = Obj b"
  shows "on_input_key_down_handler 40 sh s =
           Return (s\<lparr>active := Obj b, input_value := f (data (heap s b))\<rparr>)"
  using assms
  by (simp add: on_input_key_down_handler_def step_link_def set_active_def)

lemma press_ring:
  assumes "\<forall>i<length its. item_next (h (its ! i)) = Obj (its ! ((i + 1) mod length its))"
    and "i < length its"
    and "is_open s" and "items s = Some its" and "fn_label s = Some f" and "heap s = h"
    and "active s = Obj (its ! i)"
  shows "\<exists>s'. press 40 k s = Return s' \<and> active s' = Obj (its ! ((i + k) mod length its))"
  using assms(2-)
proof (induction k arbitrary: s i)
  case 0
  then show ?case by simp
next
  case (Suc k)
  let ?n = "length its"
  let ?j = "(i + 1) mod ?n"
  let ?s1 = "s\<lparr>active := Obj (its ! ?j), input_value := f (data (heap s (its ! ?j)))\<rparr>"
  have ne: "its \<noteq> []" using Suc.prems(1) by auto
  then have lt: "?j < ?n" by simp
  have nx: "item_next (heap s (its ! i)) = Obj (its ! ?j)"
    using assms(1) Suc.prems by simp
  have step: "on_input_key_down_handler 40 False s = Return ?s1"
    using key_down_next [OF Suc.prems(2) Suc.prems(3) ne Suc.prems(4) Suc.prems(6) nx] .
  have "\<exists>s'. press 40 k ?s1 = Return s' \<and> active s' = Obj (its ! ((?j + k) mod ?n))"
    using Suc.prems by (intro Suc.IH [OF lt]) simp_all
  moreover have "(?j + k) mod ?n = (i + Suc k) mod ?n"
    by (simp add: mod_add_left_eq)
  ultimately show ?case using step by simp
qed

lemma fill_Return:
  assumes "fill its msk s0 = Return s" and "its \<noteq> []"
  shows "\<exists>f. fn_label s = Some f \<and> items s = Some its \<and> is_open s = is_open s0 \<and> active s = active s0
       \<and> heap s = fold (fill_step its msk f) [0..<length its] (heap s0)"
  using assms by (auto simp: fill_def Let_def split: option.splits)

subsection \<open>Fresh store entries\<close>

lemma call_fn_node_Some:
  assumes "fn_label s = Some f" and "fn_node s = Some g"
  shows "\<exists>c. call_fn_node s r = Some c"
  using assms by (cases g) (auto simp: call_fn_node_def split: option.splits)

lemma make_store_nodes_ok:
  assumes "fn_label s = Some f" and "fn_node s = Some g"
  shows "\<exists>s'. make_store_nodes rs s = (Some [Suc (auto_id s)..<Suc (auto_id s) + length rs], s')
          \<and> s' = s\<lparr>heap := heap s', auto_id := auto_id s + length rs\<rparr>
          \<and> (\<forall>a\<le>auto_id s. heap s' a = heap s a)
          \<and> (\<forall>k<length rs. data (heap s' (Suc (auto_id s) + k)) = rs ! k)"
  using assms
proof (induction rs arbitrary: s)
  case Nil
  then show ?case by simp
next
  case (Cons r rs)
  let ?a = "Suc (auto_id s)"
  let ?s1 = "s\<lparr>auto_id := ?a\<rparr>"
  obtain c where c: "call_fn_node ?s1 r = Some c"
    using call_fn_node_Some [of ?s1 f g r] Cons.prems by auto
  let ?fresh = "\<lparr>data = r, content = c, item_next = Null, item_prev = Null\<rparr>"
  let ?s2 = "?s1\<lparr>heap := (heap ?s1)(?a := ?fresh)\<rparr>"
  have "fn_label ?s2 = Some f" and "fn_node ?s2 = Some g" using Cons.prems by simp_all
  from Cons.IH [OF this] obtain s' where
    m: "make_store_nodes rs ?s2 = (Some [Suc (auto_id ?s2)..<Suc (auto_id ?s2) + length rs], s')"
    and e: "s' = ?s2\<lparr>heap := heap s', auto_id := auto_id ?s2 + length rs\<rparr>"
    and below: "\<forall>a\<le>auto_id ?s2. heap s' a = heap ?s2 a"
    and dat: "\<forall>k<length rs. data (heap s' (Suc (auto_id ?s2) + k)) = rs ! k"
    by blast
  have r1: "make_store_nodes (r # rs) s = (Some (?a # [Suc ?a..<Suc ?a + length rs]), s')"
    using c m by (simp add: Let_def)
  have "?a < ?a + length (r # rs)" by simp
  then have "[?a..<?a + length (r # rs)] = ?a # [Suc ?a..<?a + length (r # rs)]"
    by (rule upt_conv_Cons)
  moreover have "Suc ?a + length rs = ?a + length (r # rs)" by simp
  ultimately have r2: "?a # [Suc ?a..<Suc ?a + length rs] = [?a..<?a + length (r # rs)]"
    by (simp del: upt_Suc)
  have r3: "s' = s\<lparr>heap := heap s', auto_id := auto_id s + length (r # rs)\<rparr>"
    by (subst e) simp
  have r4: "\<forall>a\<le>auto_id s. heap s' a = heap s a"
    using below by simp
  have r5: "\<forall>k<length (r # rs). data (heap s' (?a + k)) = (r # rs) ! k"
  proof (intro allI impI)
    fix k assume k: "k < length (r # rs)"
    show "data (heap s' (?a + k)) = (r # rs) ! k"
    proof (cases k)
      case 0
      then show ?thesis using below by simp
    next
      case (Suc j)
      then show ?thesis using dat k by simp
    qed
  qed
  show ?case using r1 r2 r3 r4 r5 by (metis (no_types, lifting))
qed


lemma make_store_nodes_fresh:
  assumes "fn_label s = Some f" and "fn_node s = Some g"
  shows "\<exists>as hh n. make_store_nodes rs s = (Some as, s\<lparr>heap := hh, auto_id := n\<rparr>)
          \<and> distinct as \<and> map (\<lambda>a. data (hh a)) as = rs"
proof -
  let ?as = "[Suc (auto_id s)..<Suc (auto_id s) + length rs]"
  obtain s' where m: "make_store_nodes rs s = (Some ?as, s')"
    and e: "s' = s\<lparr>heap := heap s', auto_id := auto_id s + length rs\<rparr>"
    and dat: "\<forall>k<length rs. data (heap s' (Suc (auto_id s) + k)) = rs ! k"
    using make_store_nodes_ok [OF assms, of rs] by blast
  have len: "length ?as = length rs" by (simp del: upt_Suc)
  have "map (\<lambda>a. data (heap s' a)) ?as = rs"
  proof (rule nth_equalityI)
    show "length (map (\<lambda>a. data (heap s' a)) ?as) = length rs" using len by simp
  next
    fix i assume "i < length (map (\<lambda>a. data (heap s' a)) ?as)"
    then have i: "i < length rs" using len by simp
    then have "?as ! i = Suc (auto_id s) + i" by (simp del: upt_Suc)
    then show "map (\<lambda>a. data (heap s' a)) ?as ! i = rs ! i"
      using i dat len by (simp del: upt_Suc)
  qed
  moreover have "distinct ?as" by (rule distinct_upt)
  moreover have "make_store_nodes rs s =
      (Some ?as, s\<lparr>heap := heap s', auto_id := auto_id s + length rs\<rparr>)"
    using m e by simp
  ultimately show ?thesis by blast
qed

lemma resume_input_visible:
  assumes "fn_label s = Some f" and "fn_node s = Some g"
  shows "\<exists>s'. resume (InputPending v) rs s = Return s' \<and> visible_records s' = rs
            \<and> same_config s' s \<and> is_open s' = is_open s \<and> item s' = item s \<and> active s' = Null
            \<and> attached s' = (rs \<noteq> [])"
proof -
  obtain as hh n where m: "make_store_nodes rs s = (Some as, s\<lparr>heap := hh, auto_id := n\<rparr>)"
    and dat: "map (\<lambda>a. data (hh a)) as = rs"
    using make_store_nodes_fresh [OF assms, of rs] by blast
  let ?s2 = "set_active Null (s\<lparr>heap := hh, auto_id := n, store := Some as\<rparr>)"
  have f2: "fn_label ?s2 = Some f" using assms(1) by (simp add: set_active_def)
  obtain h' where fl: "fill as v ?s2 = Return (?s2\<lparr>items := Some as, heap := h'\<rparr>)"
    and hd: "\<forall>a. data (h' a) = data (heap ?s2 a)"
    using fill_ok [OF f2] by blast
  let ?s3 = "?s2\<lparr>items := Some as, heap := h'\<rparr>"
  let ?s4 = "if length as \<noteq> 0 then open_dropdown ?s3 else close_dropdown ?s3"
  have r: "resume (InputPending v) rs s = Return ?s4"
    using m fl by (simp add: resume_def Typeahead_set_store_def input_resume_def)
  have "map (\<lambda>a. data (h' a)) as = rs"
    using hd dat by (simp add: set_active_def)
  then have v: "visible_records ?s4 = rs"
    by (auto simp: visible_records_def open_dropdown_def close_dropdown_def
        update_dropdown_position_def)
  have len: "length as = length rs" using dat by auto
  have c: "same_config ?s4 s \<and> is_open ?s4 = is_open s \<and> item ?s4 = item s \<and> active ?s4 = Null
          \<and> attached ?s4 = (rs \<noteq> [])"
    using len
    by (simp add: same_config_def open_dropdown_def close_dropdown_def
        update_dropdown_position_def set_active_def)
  show ?thesis using r v c by blast
qed

lemma issue_dynamic:
  assumes "kind s = DynamicTypeahead" and "\<not> below_min s q"
  shows "issue q s = Await (empty_list (type_text q s)) (InputPending q)"
  using assms
  by (simp add: issue_def on_input_input_handler_def type_text_def below_min_def empty_list_def)

lemma last_answer_wins:
  assumes "kind s = DynamicTypeahead" and "fn_label s = Some f" and "fn_node s = Some g"
    and "\<not> below_min s q1" and "\<not> below_min s q2"
  shows "(\<exists>s'. answered_out_of_order q1 q2 rs1 rs2 s = Return s' \<and> visible_records s' = rs1)
       \<and> (\<exists>s'. answered_newest_only q1 q2 rs2 s = Return s' \<and> visible_records s' = rs2)"
proof -
  let ?s1 = "empty_list (type_text q1 s)"
  let ?s2 = "empty_list (type_text q2 ?s1)"
  have i1: "issue q1 s = Await ?s1 (InputPending q1)"
    using assms by (intro issue_dynamic)
  have "kind ?s1 = DynamicTypeahead" and "\<not> below_min ?s1 q2"
    using assms by (simp_all add: empty_list_def type_text_def below_min_def)
  then have i2: "issue q2 ?s1 = Await ?s2 (InputPending q2)"
    by (intro issue_dynamic)
  have "fn_label ?s2 = Some f" and "fn_node ?s2 = Some g"
    using assms by (simp_all add: empty_list_def type_text_def)
  from resume_input_visible [OF this, of q2 rs2]
  obtain s3 where r2: "resume (InputPending q2) rs2 ?s2 = Return s3"
    and v3: "visible_records s3 = rs2" and c3: "same_config s3 ?s2"
    by blast
  have "fn_label s3 = Some f" and "fn_node s3 = Some g"
    using c3 assms by (simp_all add: same_config_def empty_list_def type_text_def)
  from resume_input_visible [OF this, of q1 rs1]
  obtain s4 where r1: "resume (InputPending q1) rs1 s3 = Return s4"
    and v4: "visible_records s4 = rs1"
    by blast
  have "answered_out_of_order q1 q2 rs1 rs2 s = Return s4"
    using i1 i2 r2 r1 by (simp add: answered_out_of_order_def)
  moreover have "answered_newest_only q1 q2 rs2 s = Return s3"
    using i1 i2 r2 by (simp add: answered_newest_only_def)
  ultimately show ?thesis using v3 v4 by simp
qed

lemma demo_dynamic:
  "kind (demo DynamicTypeahead) = DynamicTypeahead"
  "fn_label (demo DynamicTypeahead) = Some default_label"
  "fn_node (demo DynamicTypeahead) = Some DefaultNode"
  "min_characters (demo DynamicTypeahead) = Some 3"
  "handle_min_characters (demo DynamicTypeahead) = False"
  "cycle_when_closed (demo DynamicTypeahead) = False"
  "is_open (demo DynamicTypeahead) = False"
  "items (demo DynamicTypeahead) = Some []"
  by (simp_all add: demo_def initialize_def constructed_def DynamicTypeahead_initialize_def
      Typeahead_initialize_def Select_initialize_def set_active_def set_item_def)

lemma demo_select:
  "kind (demo Select) = Select"
  "fn_label (demo Select) = Some default_label"
  "fn_node (demo Select) = Some DefaultNode"
  "is_open (demo Select) = False"
  "active (demo Select) = Null"
  "item (demo Select) = Null"
  "cycle_when_closed (demo Select) = True"
  by (simp_all add: demo_def initialize_def constructed_def Select_initialize_def
      set_active_def set_item_def)

subsection \<open>Committing and opening\<close>

lemma reset_ok:
  assumes "get_label s = Some l"
  shows "reset s = Return (s\<lparr>active := Null, is_open := False, items := Some [], input_value := l\<rparr>)"
proof -
  have "get_label (empty_list ((set_active Null s)\<lparr>is_open := False\<rparr>)) = Some l"
    using assms
    by (auto simp: get_label_def empty_list_def set_active_def
        split: jsref.splits option.splits)
  then show ?thesis
    by (simp add: reset_def show_label_def empty_list_def set_active_def)
qed

lemma commit_ok:
  assumes "fn_label s = Some f"
  shows "\<exists>s'. on_li_click_handler (Obj a) s = Return s'
        \<and> item s' = Obj a \<and> \<not> is_open s' \<and> active s' = Null \<and> heap s' = heap s
        \<and> emitted s' = (if item s = Obj a then emitted s
                        else emitted s @ [SelectChange (data (heap s a))])"
proof -
  have "get_label (set_item (Obj a) s) = Some (f (data (heap s a)))"
    using assms by (simp add: get_label_def set_item_def)
  from reset_ok [OF this] show ?thesis
    by (simp add: on_li_click_handler_def Let_def set_item_def close_dropdown_def)
qed


lemma fill_cases:
  "(\<exists>h'. fill its msk s = Return (s\<lparr>items := Some its, heap := h'\<rparr>))
   \<or> fill its msk s = TypeError (s\<lparr>items := Some its\<rparr>)"
proof (cases "fn_label s")
  case None
  show ?thesis
  proof (cases "its = []")
    case True
    have "fill its msk s = Return (s\<lparr>items := Some its, heap := heap s\<rparr>)"
      using True by (simp add: fill_def)
    then show ?thesis by blast
  next
    case False
    then show ?thesis using None by (simp add: fill_def)
  qed
next
  case (Some f)
  then show ?thesis using fill_ok [OF Some, of its msk] by blast
qed

lemma select_click_opens:
  assumes "\<not> is_open s"
  shows "is_open (state_of (Select_on_input_click_handler s))
       \<and> item (state_of (Select_on_input_click_handler s)) = item s
       \<and> emitted (state_of (Select_on_input_click_handler s)) = emitted s
       \<and> attached (state_of (Select_on_input_click_handler s))
       \<and> resize_listening (state_of (Select_on_input_click_handler s))
       \<and> placement (state_of (Select_on_input_click_handler s))
           = Some (rect_bottom s + scroll_y s, rect_left s + scroll_x s, rect_width s)"
proof -
  let ?s1 = "open_dropdown (s\<lparr>is_open := True\<rparr>)"
  have s1: "is_open ?s1 \<and> item ?s1 = item s \<and> emitted ?s1 = emitted s \<and> attached ?s1
        \<and> resize_listening ?s1
        \<and> placement ?s1 = Some (rect_bottom s + scroll_y s, rect_left s + scroll_x s, rect_width s)"
    by (simp add: open_dropdown_def update_dropdown_position_def)
  show ?thesis
  proof (cases "Select_refresh [] ?s1")
    case None
    then show ?thesis using assms s1 by (simp add: Select_on_input_click_handler_def Let_def)
  next
    case (Some its)
    from fill_cases [of its "[]" ?s1] show ?thesis
    proof
      assume "\<exists>h'. fill its [] ?s1 = Return (?s1\<lparr>items := Some its, heap := h'\<rparr>)"
      then obtain h' where "fill its [] ?s1 = Return (?s1\<lparr>items := Some its, heap := h'\<rparr>)"
        by blast
      then show ?thesis using assms s1 Some
        by (simp add: Select_on_input_click_handler_def Let_def set_active_def)
    next
      assume "fill its [] ?s1 = TypeError (?s1\<lparr>items := Some its\<rparr>)"
      then show ?thesis using assms s1 Some
        by (simp add: Select_on_input_click_handler_def Let_def)
    qed
  qed
qed



lemma make_store_nodes_no_fn_node:
  assumes "fn_node s = None" and "rs \<noteq> []"
  shows "fst (make_store_nodes rs s) = None"
  using assms by (cases rs) (simp_all add: call_fn_node_def Let_def)

text \<open>
  The lists that the widget passes to \<^verbatim>\<open>fill\<close> have no entry twice: the entries of a
  store are fresh, and the local refresh filters the store.
\<close>

lemma refresh_distinct:
  assumes "store s = Some st" and "distinct st" and "Select_refresh v s = Some its"
  shows "distinct its"
  using assms by (auto simp: Select_refresh_def split: if_splits option.splits)

text \<open>
  An arrow key on an open, empty list: with \<^verbatim>\<open>cycle_when_closed\<close> off the handler
  returns and changes nothing; with it on the handler fails.
\<close>

lemma arrow_on_empty_list:
  assumes "is_open s" and "items s = Some []" and "keyCode = 40 \<or> keyCode = 38"
  shows "\<not> cycle_when_closed s \<Longrightarrow> on_input_key_down_handler keyCode False s = Return s"
    and "cycle_when_closed s \<Longrightarrow> \<not> truthy (active s) \<Longrightarrow>
           failed (on_input_key_down_handler keyCode False s)"
  using assms
  by (cases "active s";
      auto simp: on_input_key_down_handler_def first_or_last_def at_index_def set_active_def)+

subsection \<open>Opening and closing the dropdown\<close>

lemma refresh_empty_text:
  assumes "store s = Some st" and "fn_label s = Some f"
  shows "Select_refresh [] s = Some st"
proof -
  have "includes_str x (toLowerCase [])" for x
    by (simp add: toLowerCase_def includes_str_empty)
  then show ?thesis using assms by (simp add: Select_refresh_def)
qed

lemma get_label_Some:
  assumes "fn_label s = Some f"
  shows "\<exists>l. get_label s = Some l"
  using assms by (cases "item s") (simp_all add: get_label_def)

lemma blur_ok:
  assumes "fn_label s = Some f"
  shows "\<exists>s'. on_input_blur_handler s = Return s' \<and> \<not> attached s' \<and> \<not> resize_listening s'
            \<and> \<not> is_open s' \<and> active s' = Null \<and> item s' = item s \<and> emitted s' = emitted s"
proof -
  obtain l where "get_label s = Some l" using get_label_Some [OF assms] by blast
  from reset_ok [OF this] show ?thesis
    by (simp add: on_input_blur_handler_def close_dropdown_def)
qed

lemma commit_detaches:
  assumes "fn_label s = Some f"
  shows "\<exists>s'. on_li_click_handler (Obj a) s = Return s' \<and> \<not> attached s' \<and> \<not> resize_listening s'
            \<and> \<not> is_open s'"
proof -
  have "get_label (set_item (Obj a) s) = Some (f (data (heap s a)))"
    using assms by (simp add: get_label_def set_item_def)
  from reset_ok [OF this] show ?thesis
    by (simp add: on_li_click_handler_def Let_def set_item_def close_dropdown_def)
qed

lemma toggle_closes:
  assumes "fn_label s = Some f" and "is_open s"
  shows "\<exists>s'. on_input_click_handler s = Return s' \<and> \<not> attached s' \<and> \<not> resize_listening s'
            \<and> \<not> is_open s' \<and> item s' = item s \<and> emitted s' = emitted s"
proof -
  obtain l where "get_label s = Some l" using get_label_Some [OF assms(1)] by blast
  from reset_ok [OF this] show ?thesis using assms(2)
    by (simp add: on_input_click_handler_def Select_on_input_click_handler_def
        Typeahead_on_input_click_handler_def close_dropdown_def)
qed

lemma select_click_returns:
  assumes "\<not> is_open s" and "store s = Some st" and "fn_label s = Some f"
  shows "\<exists>s'. Select_on_input_click_handler s = Return s' \<and> opened_with st s s'"
proof -
  let ?s1 = "open_dropdown (s\<lparr>is_open := True\<rparr>)"
  have st1: "store ?s1 = Some st" and f1: "fn_label ?s1 = Some f"
    using assms by (simp_all add: open_dropdown_def update_dropdown_position_def)
  have r: "Select_refresh [] ?s1 = Some st" by (rule refresh_empty_text [OF st1 f1])
  obtain h' where fl: "fill st [] ?s1 = Return (?s1\<lparr>items := Some st, heap := h'\<rparr>)"
    and hd: "\<forall>a. data (h' a) = data (heap ?s1 a)"
    using fill_ok [OF f1] by blast
  let ?s2 = "?s1\<lparr>items := Some st, heap := h'\<rparr>"
  let ?s3 = "if truthy (item ?s2) then set_active (item ?s2) ?s2 else ?s2"
  have res: "Select_on_input_click_handler s = Return ?s3"
    using assms(1) r fl by (simp add: Select_on_input_click_handler_def Let_def)
  have "opened_with st s ?s3"
    using hd
    by (simp add: opened_with_def open_dropdown_def update_dropdown_position_def
        set_active_def visible_records_def)
  with res show ?thesis by blast
qed








lemma input_resume_attaches:
  assumes "fn_label s = Some f" and "its \<noteq> []"
  shows "\<exists>s'. input_resume its v s = Return s' \<and> attached s' \<and> resize_listening s'"
proof -
  have "fn_label (set_active Null s) = Some f" using assms(1) by (simp add: set_active_def)
  from fill_ok [OF this, of its v] obtain h' where
    "fill its v (set_active Null s)
       = Return ((set_active Null s)\<lparr>items := Some its, heap := h'\<rparr>)"
    by blast
  then show ?thesis using assms(2)
    by (simp add: input_resume_def open_dropdown_def update_dropdown_position_def)
qed

lemma input_resume_closes:
  "\<exists>s'. input_resume [] v s = Return s' \<and> \<not> attached s' \<and> \<not> resize_listening s'"
  by (simp add: input_resume_def fill_def close_dropdown_def)

subsection \<open>The concrete widgets\<close>





section \<open>The claims\<close>

subsection \<open>C1: answers of the fetch that arrive out of order\<close>

text \<open>
  C1, as the code has it. The code numbers no query and compares no generation: every
  answer of the fetch is applied when it arrives. When two queries have been issued to
  the fetch of a DynamicTypeahead and the answer to the first arrives after the answer to
  the second, the handler of the first query is resumed last, and the visible set that
  remains is the one built from the answer to the first, older query.
\<close>

theorem last_arriving_answer_is_shown:
  assumes "kind s = DynamicTypeahead" and "fn_label s = Some f" and "fn_node s = Some g"
    and "\<not> below_min s q1" and "\<not> below_min s q2"
  shows "\<exists>s'. answered_out_of_order q1 q2 rs1 rs2 s = Return s' \<and> visible_records s' = rs1"
  using last_answer_wins [OF assms] by blast

theorem last_arriving_answer_is_shown_witness:
  "kind (demo DynamicTypeahead) = DynamicTypeahead
   \<and> fn_label (demo DynamicTypeahead) = Some default_label
   \<and> fn_node (demo DynamicTypeahead) = Some DefaultNode
   \<and> \<not> below_min (demo DynamicTypeahead) ''abc''
   \<and> \<not> below_min (demo DynamicTypeahead) ''abcd''
   \<and> (\<exists>s'. answered_out_of_order ''abc'' ''abcd'' [labelled ''abc old'']
               [labelled ''abcd new''] (demo DynamicTypeahead) = Return s'
           \<and> visible_records s' = [labelled ''abc old''])"
proof -
  have b: "\<not> below_min (demo DynamicTypeahead) ''abc''"
    "\<not> below_min (demo DynamicTypeahead) ''abcd''"
    by (simp_all add: below_min_def demo_dynamic)
  show ?thesis
    using last_arriving_answer_is_shown [OF demo_dynamic(1,2,3) b,
        of "[labelled ''abc old'']" "[labelled ''abcd new'']"]
      demo_dynamic(1,2,3) b
    by simp
qed

text \<open>
  C1 as the specification states it fails: after both answers the visible set is not the
  one of the newest query.
\<close>

theorem stale_answer_counterexample:
  "visible_records (state_of (answered_out_of_order ''abc'' ''abcd''
       [labelled ''abc old''] [labelled ''abcd new''] (demo DynamicTypeahead)))
   \<noteq> visible_records (state_of (answered_newest_only ''abc'' ''abcd''
       [labelled ''abcd new''] (demo DynamicTypeahead)))"
proof -
  have b: "\<not> below_min (demo DynamicTypeahead) ''abc''"
    "\<not> below_min (demo DynamicTypeahead) ''abcd''"
    by (simp_all add: below_min_def demo_dynamic)
  from last_answer_wins [OF demo_dynamic(1,2,3) b,
      of "[labelled ''abc old'']" "[labelled ''abcd new'']"]
  show ?thesis by (auto simp: labelled_def)
qed

subsection \<open>C2: the ring built by fill, and the arrow keys\<close>

text \<open>
  C2, as the code has it. After \<^verbatim>\<open>fill\<close> has returned on a non-empty list of distinct
  entries, following \<^verbatim>\<open>next\<close> \<open>k\<close> times from the entry at position \<open>i\<close> leads to the
  entry at position \<open>(i + k) mod N\<close>: the links form one cycle over the list in order,
  \<open>N\<close> steps lead back to the start and fewer steps do not. With the dropdown open and
  no active entry, the first ArrowDown makes the first entry active and each further one
  follows the ring: after \<open>k + 1\<close> presses the entry at position \<open>k mod N\<close> is active,
  so it takes \<open>N + 1\<close> presses, not \<open>N\<close>, for the first entry to be active again.
\<close>

theorem ring_closure:
  assumes "fill its msk s0 = Return s" and "its \<noteq> []" and "distinct its"
  shows "(\<forall>i<length its. \<forall>k.
            follow_next (heap s) k (Obj (its ! i)) = Obj (its ! ((i + k) mod length its)))
       \<and> (\<forall>i<length its. follow_next (heap s) (length its) (Obj (its ! i)) = Obj (its ! i))
       \<and> (\<forall>i<length its. \<forall>k. 0 < k \<longrightarrow> k < length its \<longrightarrow>
            follow_next (heap s) k (Obj (its ! i)) \<noteq> Obj (its ! i))
       \<and> (is_open s \<longrightarrow> \<not> truthy (active s) \<longrightarrow>
            (\<forall>k. \<exists>s'. press 40 (Suc k) s = Return s'
                     \<and> active s' = Obj (its ! (k mod length its))))
       \<and> (is_open s \<longrightarrow> \<not> truthy (active s) \<longrightarrow>
            (\<exists>s'. press 40 (Suc (length its)) s = Return s' \<and> active s' = Obj (its ! 0)))"
proof -
  let ?n = "length its"
  obtain f where f: "fn_label s = Some f" and it: "items s = Some its"
    and h: "heap s = fold (fill_step its msk f) [0..<?n] (heap s0)"
    using fill_Return [OF assms(1,2)] by blast
  have links: "\<forall>i<?n. item_next (heap s (its ! i)) = Obj (its ! ((i + 1) mod ?n))"
    unfolding h using fill_loop_links [OF assms(3), of ?n msk f "heap s0"] by simp
  have n: "0 < ?n" using assms(2) by simp
  have ring: "\<forall>i<?n. \<forall>k. follow_next (heap s) k (Obj (its ! i)) = Obj (its ! ((i + k) mod ?n))"
    using follow_ring [OF links] by blast
  have closes: "\<forall>i<?n. follow_next (heap s) ?n (Obj (its ! i)) = Obj (its ! i)"
    using ring by simp
  have single: "\<forall>i<?n. \<forall>k. 0 < k \<longrightarrow> k < ?n \<longrightarrow>
      follow_next (heap s) k (Obj (its ! i)) \<noteq> Obj (its ! i)"
    using ring ring_no_shortcut [OF assms(3)] by simp
  have presses: "\<exists>s'. press 40 (Suc k) s = Return s' \<and> active s' = Obj (its ! (k mod ?n))"
    if opn: "is_open s" and act: "\<not> truthy (active s)" for k
  proof -
    let ?s1 = "s\<lparr>active := Obj (its ! 0), input_value := f (data (heap s (its ! 0)))\<rparr>"
    have first: "on_input_key_down_handler 40 False s = Return ?s1"
      using key_down_first [OF opn it assms(2) f act] .
    have "\<exists>s'. press 40 k ?s1 = Return s' \<and> active s' = Obj (its ! ((0 + k) mod ?n))"
      using opn it f by (intro press_ring [OF links n]) simp_all
    then show ?thesis using first by simp
  qed
  have "\<exists>s'. press 40 (Suc ?n) s = Return s' \<and> active s' = Obj (its ! 0)"
    if "is_open s" and "\<not> truthy (active s)"
    using presses [OF that, of ?n] by simp
  with ring closes single presses show ?thesis by blast
qed

theorem ring_closure_witness:
  "fill [1, 2] [] ((demo Select)\<lparr>is_open := True\<rparr>)
     = Return (state_of (fill [1, 2] [] ((demo Select)\<lparr>is_open := True\<rparr>)))
   \<and> [1, 2] \<noteq> ([] :: nat list) \<and> distinct [1, 2 :: nat]
   \<and> is_open (state_of (fill [1, 2] [] ((demo Select)\<lparr>is_open := True\<rparr>)))
   \<and> \<not> truthy (active (state_of (fill [1, 2] [] ((demo Select)\<lparr>is_open := True\<rparr>))))
   \<and> (1::nat) < length [1, 2 :: nat] \<and> (0::nat) < 1
   \<and> follow_next (heap (state_of (fill [1, 2] [] ((demo Select)\<lparr>is_open := True\<rparr>)))) 2
         (Obj 2) = Obj 2
   \<and> follow_next (heap (state_of (fill [1, 2] [] ((demo Select)\<lparr>is_open := True\<rparr>)))) 1
         (Obj 2) \<noteq> Obj 2
   \<and> (\<exists>s'. press 40 3 (state_of (fill [1, 2] [] ((demo Select)\<lparr>is_open := True\<rparr>)))
               = Return s' \<and> active s' = Obj 1)"
proof -
  let ?w = "(demo Select)\<lparr>is_open := True\<rparr>"
  let ?x = "state_of (fill [1, 2] [] ?w)"
  have "fn_label ?w = Some default_label" by (simp add: demo_select)
  from fill_ok [OF this, of "[1, 2]" "[]"] obtain h' where
    e: "fill [1, 2] [] ?w = Return (?w\<lparr>items := Some [1, 2], heap := h'\<rparr>)"
    by blast
  then have r: "fill [1, 2] [] ?w = Return ?x" by simp
  have o: "is_open ?x" and a: "\<not> truthy (active ?x)"
    unfolding e by (simp_all add: demo_select)
  have ne: "[1, 2] \<noteq> ([] :: nat list)" and d: "distinct [1, 2 :: nat]" by simp_all
  have len: "length [1, 2 :: nat] = 2" and three: "Suc 2 = 3"
    and n0: "[1, 2 :: nat] ! 0 = 1" and n1: "[1, 2 :: nat] ! 1 = 2"
    by simp_all
  note rc = ring_closure [OF r ne d]
  note closes = rc [THEN conjunct2, THEN conjunct1, rule_format]
  note single = rc [THEN conjunct2, THEN conjunct2, THEN conjunct1, rule_format]
  note again = rc [THEN conjunct2, THEN conjunct2, THEN conjunct2, THEN conjunct2, rule_format]
  have z: "(1::nat) < length [1, 2 :: nat]" "(0::nat) < 1" by simp_all
  have c1: "follow_next (heap ?x) 2 (Obj 2) = Obj 2"
    using closes [OF z(1)] unfolding len n1 .
  have c0: "follow_next (heap ?x) 1 (Obj 2) \<noteq> Obj 2"
    using single [OF z(1) z(2) z(1)] unfolding n1 .
  have c2: "\<exists>s'. press 40 3 ?x = Return s' \<and> active s' = Obj 1"
    using again [OF o a] unfolding len n0 three .
  show ?thesis
    apply (intro conjI)
             apply (rule r)
            apply (rule ne)
           apply (rule d)
          apply (rule o)
         apply (rule a)
        apply (rule z(1))
       apply (rule z(2))
      apply (rule c1)
     apply (rule c0)
    apply (rule c2)
    done
qed

text \<open>
  C2 as the specification states it fails for two entries: two presses of ArrowDown leave
  the second entry active, not the first.
\<close>

theorem arrow_down_counterexample:
  "\<not> failed two_entries_open
   \<and> is_open (state_of two_entries_open)
   \<and> active (state_of two_entries_open) = Null
   \<and> items (state_of two_entries_open) = Some [1, 2]
   \<and> \<not> failed (and_then two_entries_open (press 40 2))
   \<and> active (state_of (and_then two_entries_open (press 40 2))) = Obj 2
   \<and> active (state_of (and_then two_entries_open (press 40 2))) \<noteq> Obj 1"
  unfolding two_entries_open_def
  by (simp add: widget_defs Let_def upt_rec eval_nat_numeral)

subsection \<open>C3: the local refresh\<close>

text \<open>
  C3. For every store and every query text, \<^verbatim>\<open>Select.refresh\<close> returns exactly the
  entries of the store whose label contains the text case-insensitively, in the order of
  the store; for the empty text it returns the whole store.
\<close>

theorem refresh_filters:
  assumes "store s = Some st" and "fn_label s = Some f"
  shows "Select_refresh v s = Some (filter (\<lambda>a. contains_ci (f (data (heap s a))) v) st)
       \<and> Select_refresh [] s = Some st"
proof -
  have "includes_str x (toLowerCase [])" for x
    by (simp add: toLowerCase_def includes_str_empty)
  then have e: "Select_refresh [] s = Some st"
    using assms by (simp add: Select_refresh_def)
  have "Select_refresh v s = Some (filter (\<lambda>a. contains_ci (f (data (heap s a))) v) st)"
    using assms by (simp add: Select_refresh_def contains_ci_def includes_str_iff)
  with e show ?thesis by simp
qed

theorem refresh_filters_witness:
  "store (state_of two_entries_open) = Some [1, 2]
   \<and> fn_label (state_of two_entries_open) = Some default_label
   \<and> Select_refresh ''b'' (state_of two_entries_open)
       = Some (filter (\<lambda>a. contains_ci
                  (default_label (data (heap (state_of two_entries_open) a))) ''b'') [1, 2])
   \<and> Select_refresh [] (state_of two_entries_open) = Some [1, 2]"
proof -
  have st: "store (state_of two_entries_open) = Some [1, 2]"
    and f: "fn_label (state_of two_entries_open) = Some default_label"
    unfolding two_entries_open_def
    by (simp_all add: widget_defs Let_def upt_rec eval_nat_numeral)
  from refresh_filters [OF st f, of "''b''"] st f show ?thesis by simp
qed

subsection \<open>C6: the minimum length with the suppressing policy\<close>

text \<open>
  C6. When a minimum length is configured and \<^verbatim>\<open>handle_min_characters\<close> is off, the
  handler of a keystroke whose text is shorter than the minimum returns at once: the
  widget, and with it the visible set, its order and the entries, is exactly what it was
  when the text was typed.
\<close>

theorem short_text_is_suppressed:
  assumes "min_characters s = Some m" and "\<not> handle_min_characters s" and "length v < m"
  shows "issue v s = Return (type_text v s)
       \<and> items (type_text v s) = items s \<and> heap (type_text v s) = heap s
       \<and> visible_records (state_of (issue v s)) = visible_records s"
  using assms
  by (simp add: issue_def on_input_input_handler_def below_min_def type_text_def
      visible_records_def split: option.splits)

theorem short_text_is_suppressed_witness:
  "min_characters (demo DynamicTypeahead) = Some 3
   \<and> \<not> handle_min_characters (demo DynamicTypeahead)
   \<and> length ''ab'' < (3::nat)
   \<and> issue ''ab'' (demo DynamicTypeahead) = Return (type_text ''ab'' (demo DynamicTypeahead))
   \<and> visible_records (state_of (issue ''ab'' (demo DynamicTypeahead)))
       = visible_records (demo DynamicTypeahead)"
proof -
  have l: "length ''ab'' < (3::nat)" by simp
  have h: "\<not> handle_min_characters (demo DynamicTypeahead)" by (simp add: demo_dynamic)
  from short_text_is_suppressed [OF demo_dynamic(4) h l] demo_dynamic(4) h l
  show ?thesis by blast
qed

subsection \<open>C4: the notification of a commit\<close>

text \<open>
  C4. A commit is a press on an entry, or Enter while the dropdown is open (on the active
  entry, or on the first visible entry when none is active). In a widget whose label
  function is a function, the commit returns; if the committed entry is the one that was
  selected, no event is emitted; otherwise exactly one \<^verbatim>\<open>select-change\<close> event is
  emitted, and it carries the record of the entry that is now selected.
\<close>

theorem commit_notifies_once:
  assumes "fn_label s = Some f"
  shows "(\<exists>s'. on_li_click_handler (Obj a) s = Return s'
            \<and> item s' = Obj a
            \<and> emitted s' = (if item s = Obj a then emitted s
                             else emitted s @ [SelectChange (data (heap s a))]))
       \<and> (is_open s \<longrightarrow> active s = Obj a \<longrightarrow>
            (\<exists>s'. on_input_key_down_handler 13 sh s = Return s'
               \<and> item s' = Obj a
               \<and> emitted s' = (if item s = Obj a then emitted s
                                else emitted s @ [SelectChange (data (heap s a))])))
       \<and> (is_open s \<longrightarrow> \<not> truthy (active s) \<longrightarrow> items s = Some (a # its) \<longrightarrow>
            (\<exists>s'. on_input_key_down_handler 13 sh s = Return s'
               \<and> item s' = Obj a
               \<and> emitted s' = (if item s = Obj a then emitted s
                                else emitted s @ [SelectChange (data (heap s a))])))"
proof -
  have "on_input_key_down_handler 13 sh s = on_li_click_handler (Obj a) s"
    if "is_open s" and "active s = Obj a"
    using that by (simp add: on_input_key_down_handler_def)
  moreover have "on_input_key_down_handler 13 sh s = on_li_click_handler (Obj a) s"
    if "is_open s" and "\<not> truthy (active s)" and "items s = Some (a # its)"
    using that by (simp add: on_input_key_down_handler_def at_index_def)
  ultimately show ?thesis using commit_ok [OF assms, of a] by auto
qed

theorem commit_notifies_once_witness:
  "fn_label (state_of two_entries_open) = Some default_label
   \<and> is_open (state_of two_entries_open)
   \<and> \<not> truthy (active (state_of two_entries_open))
   \<and> items (state_of two_entries_open) = Some [1, 2]
   \<and> item (state_of two_entries_open) \<noteq> Obj 1
   \<and> (\<exists>s'. on_li_click_handler (Obj 1) (state_of two_entries_open) = Return s'
          \<and> emitted s' = [SelectChange (labelled ''A'')])
   \<and> (\<exists>s'. on_input_key_down_handler 13 False (state_of two_entries_open) = Return s'
          \<and> emitted s' = [SelectChange (labelled ''A'')])
   \<and> fn_label (state_of two_entries_selected_open) = Some default_label
   \<and> is_open (state_of two_entries_selected_open)
   \<and> active (state_of two_entries_selected_open) = Obj 1
   \<and> item (state_of two_entries_selected_open) = Obj 1
   \<and> (\<exists>s'. on_input_key_down_handler 13 False (state_of two_entries_selected_open) = Return s'
          \<and> emitted s' = [])"
proof -
  have a: "fn_label (state_of two_entries_open) = Some default_label"
    "is_open (state_of two_entries_open)"
    "\<not> truthy (active (state_of two_entries_open))"
    "items (state_of two_entries_open) = Some [1, 2]"
    "item (state_of two_entries_open) \<noteq> Obj 1"
    "emitted (state_of two_entries_open) = []"
    "data (heap (state_of two_entries_open) 1) = labelled ''A''"
    unfolding two_entries_open_def
    by (simp_all add: widget_defs Let_def upt_rec eval_nat_numeral)
  have b: "fn_label (state_of two_entries_selected_open) = Some default_label"
    "is_open (state_of two_entries_selected_open)"
    "active (state_of two_entries_selected_open) = Obj 1"
    "item (state_of two_entries_selected_open) = Obj 1"
    "emitted (state_of two_entries_selected_open) = []"
    unfolding two_entries_selected_open_def
    by (simp_all add: widget_defs Let_def upt_rec eval_nat_numeral)
  from commit_notifies_once [OF a(1), of 1 False "[2]"] a
  have "(\<exists>s'. on_li_click_handler (Obj 1) (state_of two_entries_open) = Return s'
          \<and> emitted s' = [SelectChange (labelled ''A'')])
      \<and> (\<exists>s'. on_input_key_down_handler 13 False (state_of two_entries_open) = Return s'
          \<and> emitted s' = [SelectChange (labelled ''A'')])"
    by auto
  moreover from commit_notifies_once [OF b(1), of 1 False] b
  have "\<exists>s'. on_input_key_down_handler 13 False (state_of two_entries_selected_open) = Return s'
          \<and> emitted s' = []"
    by auto
  ultimately show ?thesis using a b by simp
qed

subsection \<open>C5: closed implies no active entry\<close>

text \<open>
  C5 does not hold of the code. \<^verbatim>\<open>Typeahead.on_input_input_handler\<close> shows the overlay
  with \<^verbatim>\<open>open_dropdown\<close> and leaves \<^verbatim>\<open>is_open\<close> as it was, where
  \<^verbatim>\<open>on_input_click_handler\<close> sets it before opening. In a DynamicTypeahead, where
  \<^verbatim>\<open>cycle_when_closed\<close> is off, the user types three characters, the fetch answers with one
  record, and ArrowDown then makes that entry active while \<^verbatim>\<open>is_open\<close> is still false.
\<close>

theorem closed_yet_active:
  "\<not> failed typed_and_answered
   \<and> \<not> is_open (state_of typed_and_answered)
   \<and> attached (state_of typed_and_answered)
   \<and> items (state_of typed_and_answered) = Some [1]
   \<and> active (state_of typed_and_answered) = Null
   \<and> \<not> failed (and_then typed_and_answered (on_input_key_down_handler 40 False))
   \<and> \<not> is_open (state_of (and_then typed_and_answered (on_input_key_down_handler 40 False)))
   \<and> active (state_of (and_then typed_and_answered (on_input_key_down_handler 40 False)))
       = Obj 1"
  unfolding typed_and_answered_def
  by (simp add: widget_defs issue_def type_text_def resume_def Let_def upt_rec
      eval_nat_numeral)

subsection \<open>C7: the placement of the overlay\<close>

text \<open>
  C7, as the code has it. \<^verbatim>\<open>open_dropdown\<close> always attaches the overlay and the resize
  listener and, when \<^verbatim>\<open>is_open\<close> is set, places the overlay at top = bottom edge of the
  input + vertical scroll offset, left = left edge + horizontal scroll offset, width =
  width of the input. A click on a closed Select opens it so, and returns when the store
  is set and the label function is a function; the handler of typed text attaches
  overlay and listener when it has entries to show. The resize listener is
  \<^verbatim>\<open>close_dropdown\<close>: a resize of the window while the listener is attached does not
  compute the placement again, it detaches the overlay and the listener and leaves the
  placement as it was. Every way of closing detaches the overlay and the listener:
  \<^verbatim>\<open>close_dropdown\<close> itself, typed text with nothing to show and, when the label
  function is a function, loss of focus, Escape, a commit and a click on the open input.
\<close>

theorem overlay_placement:
  "attached (open_dropdown s) \<and> resize_listening (open_dropdown s)
   \<and> (is_open s \<longrightarrow>
        placement (open_dropdown s)
          = Some (rect_bottom s + scroll_y s, rect_left s + scroll_x s, rect_width s))
   \<and> (kind s = Select \<longrightarrow> \<not> is_open s \<longrightarrow>
        is_open (state_of (on_input_click_handler s))
      \<and> placement (state_of (on_input_click_handler s))
          = Some (rect_bottom s + scroll_y s, rect_left s + scroll_x s, rect_width s)
      \<and> attached (state_of (on_input_click_handler s))
      \<and> resize_listening (state_of (on_input_click_handler s)))
   \<and> (kind s = Select \<longrightarrow> \<not> is_open s \<longrightarrow> store s = Some st \<longrightarrow> fn_label s = Some f \<longrightarrow>
        (\<exists>s'. on_input_click_handler s = Return s' \<and> is_open s'
            \<and> placement s'
                = Some (rect_bottom s + scroll_y s, rect_left s + scroll_x s, rect_width s)
            \<and> attached s' \<and> resize_listening s'))
   \<and> (fn_label s = Some f \<longrightarrow> its \<noteq> [] \<longrightarrow>
        (\<exists>s'. input_resume its v s = Return s' \<and> attached s' \<and> resize_listening s'))
   \<and> (resize_listening s \<longrightarrow>
        on_window_resize b l w x y s
          = close_dropdown (s\<lparr>rect_bottom := b, rect_left := l, rect_width := w,
                               scroll_x := x, scroll_y := y\<rparr>)
      \<and> placement (on_window_resize b l w x y s) = placement s
      \<and> \<not> attached (on_window_resize b l w x y s)
      \<and> \<not> resize_listening (on_window_resize b l w x y s))
   \<and> \<not> attached (close_dropdown s) \<and> \<not> resize_listening (close_dropdown s)
   \<and> (\<exists>s'. input_resume [] v s = Return s' \<and> \<not> attached s' \<and> \<not> resize_listening s')
   \<and> (fn_label s = Some f \<longrightarrow>
        (\<exists>s'. on_input_blur_handler s = Return s' \<and> \<not> attached s' \<and> \<not> resize_listening s')
      \<and> (\<exists>s'. on_input_key_down_handler 27 sh s = Return s'
              \<and> \<not> attached s' \<and> \<not> resize_listening s')
      \<and> (\<exists>s'. on_li_click_handler (Obj a) s = Return s'
              \<and> \<not> attached s' \<and> \<not> resize_listening s')
      \<and> (is_open s \<longrightarrow>
            (\<exists>s'. on_input_click_handler s = Return s'
                \<and> \<not> attached s' \<and> \<not> resize_listening s')))"
proof -
  have p1: "attached (open_dropdown s) \<and> resize_listening (open_dropdown s)
      \<and> (is_open s \<longrightarrow> placement (open_dropdown s)
          = Some (rect_bottom s + scroll_y s, rect_left s + scroll_x s, rect_width s))"
    by (simp add: open_dropdown_def update_dropdown_position_def)
  have p2: "kind s = Select \<longrightarrow> \<not> is_open s \<longrightarrow>
        is_open (state_of (on_input_click_handler s))
      \<and> placement (state_of (on_input_click_handler s))
          = Some (rect_bottom s + scroll_y s, rect_left s + scroll_x s, rect_width s)
      \<and> attached (state_of (on_input_click_handler s))
      \<and> resize_listening (state_of (on_input_click_handler s))"
    using select_click_opens [of s] by (simp add: on_input_click_handler_def)
  have p3: "\<exists>s'. on_input_click_handler s = Return s' \<and> is_open s'
            \<and> placement s'
                = Some (rect_bottom s + scroll_y s, rect_left s + scroll_x s, rect_width s)
            \<and> attached s' \<and> resize_listening s'"
    if "kind s = Select" and "\<not> is_open s" and "store s = Some st" and "fn_label s = Some f"
    using select_click_returns [OF that(2,3,4)] that(1)
    by (auto simp: on_input_click_handler_def opened_with_def)
  have p4: "\<exists>s'. input_resume its v s = Return s' \<and> attached s' \<and> resize_listening s'"
    if "fn_label s = Some f" and "its \<noteq> []"
    using input_resume_attaches [OF that] .
  have p5: "resize_listening s \<longrightarrow>
        on_window_resize b l w x y s
          = close_dropdown (s\<lparr>rect_bottom := b, rect_left := l, rect_width := w,
                               scroll_x := x, scroll_y := y\<rparr>)
      \<and> placement (on_window_resize b l w x y s) = placement s
      \<and> \<not> attached (on_window_resize b l w x y s)
      \<and> \<not> resize_listening (on_window_resize b l w x y s)"
    by (simp add: on_window_resize_def close_dropdown_def)
  have p6: "\<not> attached (close_dropdown s) \<and> \<not> resize_listening (close_dropdown s)"
    by (simp add: close_dropdown_def)
  have p7: "\<exists>s'. input_resume [] v s = Return s' \<and> \<not> attached s' \<and> \<not> resize_listening s'"
    by (rule input_resume_closes)
  have p8: "(\<exists>s'. on_input_blur_handler s = Return s' \<and> \<not> attached s' \<and> \<not> resize_listening s')
      \<and> (\<exists>s'. on_input_key_down_handler 27 sh s = Return s'
              \<and> \<not> attached s' \<and> \<not> resize_listening s')
      \<and> (\<exists>s'. on_li_click_handler (Obj a) s = Return s'
              \<and> \<not> attached s' \<and> \<not> resize_listening s')
      \<and> (is_open s \<longrightarrow>
            (\<exists>s'. on_input_click_handler s = Return s'
                \<and> \<not> attached s' \<and> \<not> resize_listening s'))"
    if fl: "fn_label s = Some f"
  proof -
    have "on_input_key_down_handler 27 sh s = on_input_blur_handler s"
      by (simp add: on_input_key_down_handler_def)
    then show ?thesis
      using blur_ok [OF fl] commit_detaches [OF fl, of a] toggle_closes [OF fl]
      by (metis (no_types, lifting))
  qed
  show ?thesis
    apply (intro conjI impI)
    using p1 p2 p3 p4 p5 p6 p7 p8 by blast+
qed

theorem overlay_placement_witness:
  "kind placed_select = Select \<and> \<not> is_open placed_select
   \<and> store placed_select = Some [1, 2]
   \<and> fn_label placed_select = Some default_label
   \<and> (\<exists>s'. on_input_click_handler placed_select = Return s' \<and> is_open s'
          \<and> placement s' = Some (70, 13, 200) \<and> attached s' \<and> resize_listening s')
   \<and> is_open (state_of (on_input_click_handler placed_select))
   \<and> resize_listening (state_of (on_input_click_handler placed_select))
   \<and> fn_label (state_of (on_input_click_handler placed_select)) = Some default_label
   \<and> [1, 2] \<noteq> ([] :: nat list)
   \<and> placement (open_dropdown (state_of (on_input_click_handler placed_select)))
       = Some (70, 13, 200)
   \<and> \<not> attached (on_window_resize 90 10 150 3 40
                    (state_of (on_input_click_handler placed_select)))
   \<and> placement (on_window_resize 90 10 150 3 40
                  (state_of (on_input_click_handler placed_select))) = Some (70, 13, 200)
   \<and> (\<exists>s'. input_resume [1, 2] ''a'' (state_of (on_input_click_handler placed_select))
              = Return s' \<and> attached s' \<and> resize_listening s')
   \<and> (\<exists>s'. on_input_blur_handler (state_of (on_input_click_handler placed_select))
              = Return s' \<and> \<not> attached s' \<and> \<not> resize_listening s')
   \<and> (\<exists>s'. on_li_click_handler (Obj 2) (state_of (on_input_click_handler placed_select))
              = Return s' \<and> \<not> attached s' \<and> \<not> resize_listening s')
   \<and> (\<exists>s'. on_input_click_handler (state_of (on_input_click_handler placed_select))
              = Return s' \<and> \<not> attached s' \<and> \<not> resize_listening s')"
proof -
  let ?x = "state_of (on_input_click_handler placed_select)"
  have p: "kind placed_select = Select" "\<not> is_open placed_select"
    "store placed_select = Some [1, 2]" "fn_label placed_select = Some default_label"
    unfolding placed_select_def
    by (simp_all add: widget_defs Let_def upt_rec eval_nat_numeral)
  have q: "rect_bottom placed_select = 30" "rect_left placed_select = 10"
    "rect_width placed_select = 200" "scroll_x placed_select = 3"
    "scroll_y placed_select = 40"
    unfolding placed_select_def
    by (simp_all add: widget_defs Let_def upt_rec eval_nat_numeral)
  note at_p = overlay_placement [of placed_select "[1, 2]" default_label]
  have "\<exists>s'. on_input_click_handler placed_select = Return s' \<and> is_open s'
          \<and> placement s' = Some (rect_bottom placed_select + scroll_y placed_select,
               rect_left placed_select + scroll_x placed_select, rect_width placed_select)
          \<and> attached s' \<and> resize_listening s'"
    using at_p p by blast
  then have c: "\<exists>s'. on_input_click_handler placed_select = Return s' \<and> is_open s'
          \<and> placement s' = Some (70, 13, 200) \<and> attached s' \<and> resize_listening s'"
    unfolding q by simp
  then obtain s' where e: "on_input_click_handler placed_select = Return s'"
    and o: "is_open s'" "placement s' = Some (70, 13, 200)" "attached s'" "resize_listening s'"
    by blast
  have x: "?x = s'" using e by simp
  have fx: "fn_label ?x = Some default_label"
    unfolding placed_select_def
    by (simp add: widget_defs Let_def upt_rec eval_nat_numeral)
  have g: "rect_bottom ?x = 30" "rect_left ?x = 10" "rect_width ?x = 200" "scroll_x ?x = 3"
    "scroll_y ?x = 40"
    unfolding placed_select_def
    by (simp_all add: widget_defs Let_def upt_rec eval_nat_numeral)
  have ox: "is_open ?x" "placement ?x = Some (70, 13, 200)" "resize_listening ?x"
    using o x by simp_all
  have ne: "[1, 2] \<noteq> ([] :: nat list)" by simp
  note at_x = overlay_placement [of ?x _ default_label "[1, 2]" "''a''" 90 10 150 3 40 False 2]
  have "placement (open_dropdown ?x)
      = Some (rect_bottom ?x + scroll_y ?x, rect_left ?x + scroll_x ?x, rect_width ?x)"
    using at_x ox(1) by blast
  then have r1: "placement (open_dropdown ?x) = Some (70, 13, 200)"
    unfolding g by simp
  have r2: "\<not> attached (on_window_resize 90 10 150 3 40 ?x)"
    using at_x ox(3) by blast
  have "placement (on_window_resize 90 10 150 3 40 ?x) = placement ?x"
    using at_x ox(3) by blast
  then have r3: "placement (on_window_resize 90 10 150 3 40 ?x) = Some (70, 13, 200)"
    using ox(2) by simp
  have r4: "\<exists>s'. input_resume [1, 2] ''a'' ?x = Return s' \<and> attached s' \<and> resize_listening s'"
    using at_x fx ne by blast
  have r5: "\<exists>s'. on_input_blur_handler ?x = Return s' \<and> \<not> attached s' \<and> \<not> resize_listening s'"
    using at_x fx by blast
  have r6: "\<exists>s'. on_li_click_handler (Obj 2) ?x = Return s' \<and> \<not> attached s' \<and> \<not> resize_listening s'"
    using at_x fx by blast
  have r7: "\<exists>s'. on_input_click_handler ?x = Return s' \<and> \<not> attached s' \<and> \<not> resize_listening s'"
    using at_x fx ox(1) by blast
  show ?thesis
    apply (intro conjI)
    using p c ox fx ne r1 r2 r3 r4 r5 r6 r7 by blast+
qed

text \<open>
  C7 as the specification states it fails: after a resize of the window while the dropdown
  is open, \<^verbatim>\<open>is_open\<close> is still set, the overlay is detached and its placement is not the
  one of the new geometry.
\<close>

theorem resize_counterexample:
  "is_open (state_of two_entries_open)
   \<and> attached (state_of two_entries_open)
   \<and> is_open (on_window_resize 50 7 120 0 0 (state_of two_entries_open))
   \<and> \<not> attached (on_window_resize 50 7 120 0 0 (state_of two_entries_open))
   \<and> placement (on_window_resize 50 7 120 0 0 (state_of two_entries_open))
       \<noteq> Some (50 + 0, 7 + 0, 120)"
  unfolding two_entries_open_def
  by (simp add: widget_defs on_window_resize_def Let_def upt_rec eval_nat_numeral)

subsection \<open>C8: an arrow key on an empty visible set\<close>

text \<open>
  C8 does not hold of the code under both policies. The guard
  \<^verbatim>\<open>if (!this.items.length && !this.cycle_when_closed) return;\<close> returns on an empty list
  only when \<^verbatim>\<open>cycle_when_closed\<close> is off. In a Select, where it is on, with an empty store
  and the dropdown opened by a click, ArrowDown and ArrowUp set \<^verbatim>\<open>active\<close> to
  \<^verbatim>\<open>undefined\<close> and then read \<^verbatim>\<open>this.active.data\<close>: a \<^verbatim>\<open>TypeError\<close>.
\<close>

theorem arrow_on_empty_list_fails:
  "\<not> failed empty_select_open
   \<and> is_open (state_of empty_select_open)
   \<and> items (state_of empty_select_open) = Some []
   \<and> active (state_of empty_select_open) = Null
   \<and> cycle_when_closed (state_of empty_select_open)
   \<and> failed (and_then empty_select_open (on_input_key_down_handler 40 False))
   \<and> failed (and_then empty_select_open (on_input_key_down_handler 38 False))"
  unfolding empty_select_open_def
  by (simp add: widget_defs Let_def)

subsection \<open>C9: missing label and content functions\<close>

text \<open>
  C9, as the code has it. \<^verbatim>\<open>initialize\<close> takes no label function and no content
  function and checks nothing: for every class it returns, having installed the default
  label function and the default content function. Nothing is checked when a function is
  replaced either; a content function that is not a function makes the setter of the store
  fail on the first record, and a label function that is not a function makes
  \<^verbatim>\<open>refresh\<close> fail on a store that is not empty: the failure comes at first use.
\<close>

theorem initialize_installs_defaults:
  "\<not> failed (initialize s)
   \<and> fn_label (state_of (initialize s)) = Some default_label
   \<and> fn_node (state_of (initialize s)) = Some DefaultNode
   \<and> (rs \<noteq> [] \<longrightarrow> failed (set_store rs (set_fn_node None s)))
   \<and> (store s = Some st \<longrightarrow> st \<noteq> [] \<longrightarrow> Select_refresh v (set_fn_label None s) = None)"
proof -
  have "failed (set_store rs (set_fn_node None s))" if "rs \<noteq> []"
  proof -
    have "fst (make_store_nodes rs (set_fn_node None s)) = None"
      using that by (intro make_store_nodes_no_fn_node) (simp_all add: set_fn_node_def)
    then show ?thesis
      by (cases "make_store_nodes rs (set_fn_node None s)")
         (simp add: set_store_def Select_set_store_def Typeahead_set_store_def)
  qed
  moreover have "Select_refresh v (set_fn_label None s) = None"
    if "store s = Some st" and "st \<noteq> []"
    using that by (simp add: Select_refresh_def set_fn_label_def)
  ultimately show ?thesis
    by (cases "kind s")
       (simp_all add: initialize_def Select_initialize_def Typeahead_initialize_def
        DynamicTypeahead_initialize_def set_active_def set_item_def)
qed

theorem initialize_installs_defaults_witness:
  "[labelled ''a''] \<noteq> []
   \<and> store (state_of two_entries_open) = Some [1, 2] \<and> [1, 2] \<noteq> ([] :: nat list)
   \<and> \<not> failed (initialize (state_of two_entries_open))
   \<and> fn_label (state_of (initialize (state_of two_entries_open))) = Some default_label
   \<and> failed (set_store [labelled ''a''] (set_fn_node None (state_of two_entries_open)))
   \<and> Select_refresh ''a'' (set_fn_label None (state_of two_entries_open)) = None"
proof -
  have st: "store (state_of two_entries_open) = Some [1, 2]"
    unfolding two_entries_open_def
    by (simp add: widget_defs Let_def upt_rec eval_nat_numeral)
  from initialize_installs_defaults
    [of "state_of two_entries_open" "[labelled ''a'']" "[1, 2]" "''a''"] st
  show ?thesis by simp
qed

text \<open>
  C9 as the specification states it fails: the element as the constructor leaves it has
  neither function, and \<^verbatim>\<open>initialize\<close> does not fail on it.
\<close>

theorem initialize_counterexample:
  "fn_label (constructed Select (\<lambda>a. blank_node) 0 0 0 0 (0::int)) = None
   \<and> fn_node (constructed Select (\<lambda>a. blank_node) 0 0 0 0 (0::int)) = None
   \<and> \<not> failed (initialize (constructed Select (\<lambda>a. blank_node) 0 0 0 0 (0::int)))"
  by (simp add: constructed_def initialize_def)

subsection \<open>C10: the Enter key\<close>




end
